theory Spec2Isabelle
  imports Complex_Main
begin

chapter \<open>The model\<close>

section \<open>Binary floating-point numbers\<close>

text \<open>
  The columns of the data frames of the notebooks are numpy arrays of type
  \<^verbatim>\<open>float64\<close>, and pandas computes on them with the arithmetic of IEEE 754
  binary64.  A number of this format is a finite number, one of the two infinities
  or a NaN.  The finite numbers are the multiples \<open>k * 2^(e - 52)\<close> with
  \<open>|k| < 2^53\<close> and \<open>- 1022 \<le> e \<le> 1023\<close>.  The two zeros are identified: the sign
  of a zero only shows in the sign of a zero result and of a quotient by zero, and a
  zero divisor is taken as \<open>+0.0\<close>.  (In the normalisation cell below the divisor is
  a sum \<open>a + b\<close>, which is \<open>-0.0\<close> only for \<open>a = b = -0.0\<close>, where the quotient
  is NaN for either zero.)
\<close>

datatype float64 = Finite real | PosInf | NegInf | NaN

text \<open>The integer nearest to a real number, the even one of the two in case of a tie.\<close>

definition round_half_even :: "real \<Rightarrow> int" where
  "round_half_even y =
     (let n = \<lfloor>y\<rfloor>; d = y - of_int n
      in if d < 1 / 2 then n else if 1 / 2 < d then n + 1 else if even n then n else n + 1)"

text \<open>
  The exponent of the binade of \<open>x\<close>, not below that of the subnormal numbers, and
  the distance of neighbouring floating-point numbers in that binade.
\<close>

definition exponent :: "real \<Rightarrow> int" where
  "exponent x = max \<lfloor>log 2 \<bar>x\<bar>\<rfloor> (- 1022)"

definition spacing :: "real \<Rightarrow> real" where
  "spacing x = 2 powi (exponent x - 52)"

text \<open>
  Rounding to nearest, ties to even, with unbounded exponent range above and
  gradual underflow below.
\<close>

definition round_float64 :: "real \<Rightarrow> real" where
  "round_float64 x =
     (if x = 0 then 0 else of_int (round_half_even (x / spacing x)) * spacing x)"

text \<open>
  The result of an operation whose exact value is \<open>x\<close>: the rounded value, or an
  infinity when the rounded value is beyond the largest finite number.
\<close>

definition to_float64 :: "real \<Rightarrow> float64" where
  "to_float64 x =
     (let r = round_float64 x
      in if 2 ^ 1024 \<le> \<bar>r\<bar> then (if 0 < x then PosInf else NegInf) else Finite r)"

text \<open>
  The reals that are finite floating-point numbers.  A value \<open>Finite x\<close> stands for
  a number of the format when \<open>x\<close> is representable; the operations below return
  such values only.
\<close>

definition representable :: "real \<Rightarrow> bool" where
  "representable x \<longleftrightarrow> round_float64 x = x \<and> \<bar>x\<bar> < 2 ^ 1024"

text \<open>The unit roundoff \<open>2^-53\<close>, and half the least subnormal number.\<close>

definition unit_roundoff :: real where
  "unit_roundoff = 2 powi (- 53)"

definition half_least_subnormal :: real where
  "half_least_subnormal = 2 powi (- 1075)"

text \<open>Addition, multiplication and division of IEEE 754.\<close>

fun fadd :: "float64 \<Rightarrow> float64 \<Rightarrow> float64" where
  "fadd (Finite x) (Finite y) = to_float64 (x + y)"
| "fadd NaN y = NaN"
| "fadd x NaN = NaN"
| "fadd PosInf NegInf = NaN"
| "fadd NegInf PosInf = NaN"
| "fadd PosInf y = PosInf"
| "fadd x PosInf = PosInf"
| "fadd NegInf y = NegInf"
| "fadd x NegInf = NegInf"



fun fdiv :: "float64 \<Rightarrow> float64 \<Rightarrow> float64" where
  "fdiv (Finite x) (Finite y) =
     (if y \<noteq> 0 then to_float64 (x / y)
      else if x = 0 then NaN else if 0 < x then PosInf else NegInf)"
| "fdiv NaN y = NaN"
| "fdiv x NaN = NaN"
| "fdiv (Finite x) y = Finite 0"
| "fdiv PosInf (Finite y) = (if 0 \<le> y then PosInf else NegInf)"
| "fdiv NegInf (Finite y) = (if 0 \<le> y then NegInf else PosInf)"
| "fdiv x y = NaN"

section \<open>Known probabilities: the normalisation cell of the sPlot notebook\<close>

text \<open>
  Notebook \<^verbatim>\<open>advanced-python/60sPlot.ipynb\<close>, cell at lines 742-746:
  \<^verbatim>\<open>
  probs = pandas.DataFrame(dict(sig=sig_mass_distr.pdf(mass), bck=bck_mass_distr.pdf(mass)))
  probs = probs.div(probs.sum(axis=1), axis=0)
  \<close>
  and cell at lines 784-786:
  \<^verbatim>\<open>
  sWeights = splot.compute_sweights(probs)
  \<close>
  A frame with the two columns \<open>sig\<close> and \<open>bck\<close> is a list of rows.  The rows of
  the frames of this cell hold floating-point numbers; the rows of the derivation
  in the next sections hold the exact probabilities of its formulas.
\<close>

record 'a row =
  sig :: 'a
  bck :: 'a

type_synonym float_row = "float64 row"

type_synonym prob_row = "real row"

text \<open>The frame built from the two density functions evaluated on the mass array.\<close>

definition density_frame ::
  "(float64 \<Rightarrow> float64) \<Rightarrow> (float64 \<Rightarrow> float64) \<Rightarrow> float64 list \<Rightarrow> float_row list" where
  "density_frame sig_pdf bck_pdf mass = map (\<lambda>m. \<lparr>sig = sig_pdf m, bck = bck_pdf m\<rparr>) mass"

text \<open>
  \<^verbatim>\<open>probs.sum(axis=1)\<close>: one sum per row.  The default \<^verbatim>\<open>skipna=True\<close> makes a
  NaN count as zero in the sum.
\<close>

fun nan_to_zero :: "float64 \<Rightarrow> float64" where
  "nan_to_zero NaN = Finite 0"
| "nan_to_zero x = x"

definition sum_axis1 :: "float_row list \<Rightarrow> float64 list" where
  "sum_axis1 probs = map (\<lambda>r. fadd (nan_to_zero (sig r)) (nan_to_zero (bck r))) probs"

text \<open>
  \<^verbatim>\<open>probs.div(s, axis=0)\<close>: the two entries of row \<open>i\<close> are divided by \<open>s ! i\<close>.
  No exception is raised: a zero or infinite divisor gives an infinity, a zero or NaN.
\<close>

definition div_row :: "float_row \<Rightarrow> float64 \<Rightarrow> float_row" where
  "div_row r d = \<lparr>sig = fdiv (sig r) d, bck = fdiv (bck r) d\<rparr>"

definition div_axis0 :: "float_row list \<Rightarrow> float64 list \<Rightarrow> float_row list" where
  "div_axis0 probs s = map2 div_row probs s"

definition normalise_probs :: "float_row list \<Rightarrow> float_row list" where
  "normalise_probs probs = div_axis0 probs (sum_axis1 probs)"

text \<open>
  The library routine \<^verbatim>\<open>hep_ml.splot.compute_sweights\<close> is not part of the
  repository; it is a parameter of the model.  The notebook passes the normalised
  frame to it unchanged.
\<close>

definition sweights_of_densities :: "(float_row list \<Rightarrow> 'w) \<Rightarrow> float_row list \<Rightarrow> 'w" where
  "sweights_of_densities compute_sweights probs = compute_sweights (normalise_probs probs)"

text \<open>
  The observed mixture (cell at lines 673-687): every event carries the splotted
  variable \<open>mass\<close> and the reconstructed variable \<open>p\<close>.  Only \<open>mass\<close> enters the
  density frame.
\<close>

record event =
  mass :: float64
  p :: float64

definition sweights_of_events ::
  "(float_row list \<Rightarrow> 'w) \<Rightarrow> (float64 \<Rightarrow> float64) \<Rightarrow> (float64 \<Rightarrow> float64) \<Rightarrow> event list \<Rightarrow> 'w" where
  "sweights_of_events compute_sweights sig_pdf bck_pdf evs =
     sweights_of_densities compute_sweights (density_frame sig_pdf bck_pdf (map mass evs))"



section \<open>The derivation of the sWeights\<close>

text \<open>
  Notebook \<^verbatim>\<open>advanced-python/60sPlot.ipynb\<close>, lines 961-980.  The signal sWeight is
  sought as a linear combination of the two per-event probabilities,
  \<^verbatim>\<open>sw_s(x) = a_1 p_b(x) + a_2 p_s(x)\<close>, and the coefficients solve
  \<^verbatim>\<open>
  a_1 V_bb + a_2 V_bs = 0
  a_1 V_sb + a_2 V_ss = N_sig
  \<close>
  where \<^verbatim>\<open>V_ss = sum_x p_s p_s\<close>, \<^verbatim>\<open>V_bs = V_sb = sum_x p_s p_b\<close>,
  \<^verbatim>\<open>V_bb = sum_x p_b p_b\<close>.  The sums run over the events of the sample.  The first
  equation says that the weights sum to zero against \<open>p_b\<close>, the second that they
  sum to \<open>N_sig\<close> against \<open>p_s\<close>, as the constraints of lines 1008-1009 do.  (In the
  two sums written out at lines 969-970 the factors \<open>p_s\<close> and \<open>p_b\<close> are interchanged;
  the model follows the system and the constraints.)
\<close>

datatype species = Sig | Bkg

fun dens :: "species \<Rightarrow> prob_row \<Rightarrow> real" where
  "dens Sig r = sig r"
| "dens Bkg r = bck r"

text \<open>The entry \<open>(n, j)\<close> of the matrix of second moments.\<close>

definition V :: "species \<Rightarrow> species \<Rightarrow> prob_row list \<Rightarrow> real" where
  "V n j probs = (\<Sum>r\<leftarrow>probs. dens n r * dens j r)"

definition linear_system :: "real \<Rightarrow> prob_row list \<Rightarrow> real \<Rightarrow> real \<Rightarrow> bool" where
  "linear_system N_sig probs a1 a2 \<longleftrightarrow>
     a1 * V Bkg Bkg probs + a2 * V Bkg Sig probs = 0 \<and>
     a1 * V Sig Bkg probs + a2 * V Sig Sig probs = N_sig"

definition sw_s :: "real \<Rightarrow> real \<Rightarrow> prob_row \<Rightarrow> real" where
  "sw_s a1 a2 r = a1 * bck r + a2 * sig r"

datatype error = Singular_matrix | Undefined_ratio

text \<open>
  Modelled from the spec: the solver of the \<open>2 \<times> 2\<close> system is a routine of an
  external numerical library and is not among the sources.  The specification
  names its one failure, the singular matrix; the model solves the system
  \<open>m11 * a1 + m12 * a2 = r1\<close>, \<open>m21 * a1 + m22 * a2 = r2\<close> by Cramer's rule in exact
  arithmetic and fails when the determinant vanishes.
\<close>

definition solve2 :: "real \<Rightarrow> real \<Rightarrow> real \<Rightarrow> real \<Rightarrow> real \<Rightarrow> real \<Rightarrow> error + real \<times> real" where
  "solve2 m11 m12 m21 m22 r1 r2 =
     (let d = m11 * m22 - m12 * m21 in
      if d = 0 then Inl Singular_matrix
      else Inr ((r1 * m22 - m12 * r2) / d, (m11 * r2 - m21 * r1) / d))"

definition sig_coefficients :: "real \<Rightarrow> prob_row list \<Rightarrow> error + real \<times> real" where
  "sig_coefficients N_sig probs =
     solve2 (V Bkg Bkg probs) (V Bkg Sig probs) (V Sig Bkg probs) (V Sig Sig probs) 0 N_sig"

text \<open>
  The closed-form computation (specification, section 4.1): solve the system, then
  apply the resulting linear combination to the density values of every event.
\<close>

definition sweights_sig :: "real \<Rightarrow> prob_row list \<Rightarrow> error + real list" where
  "sweights_sig N_sig probs =
     (case sig_coefficients N_sig probs of
        Inl e \<Rightarrow> Inl e
      | Inr (a1, a2) \<Rightarrow> Inr (map (sw_s a1 a2) probs))"

definition det_V :: "prob_row list \<Rightarrow> real" where
  "det_V probs = V Bkg Bkg probs * V Sig Sig probs - V Bkg Sig probs * V Sig Bkg probs"

text \<open>The matrix of second moments is invertible when it has an inverse matrix.\<close>

definition invertible_V :: "prob_row list \<Rightarrow> bool" where
  "invertible_V probs \<longleftrightarrow>
     (\<exists>w11 w12 w21 w22.
        V Bkg Bkg probs * w11 + V Bkg Sig probs * w21 = 1 \<and>
        V Bkg Bkg probs * w12 + V Bkg Sig probs * w22 = 0 \<and>
        V Sig Bkg probs * w11 + V Sig Sig probs * w21 = 0 \<and>
        V Sig Bkg probs * w12 + V Sig Sig probs * w22 = 1)"

text \<open>
  The two density vectors \<open>(sig r)\<close> and \<open>(bck r)\<close>, \<open>r\<close> running over the sample, are
  linearly independent when only the trivial combination vanishes on every event.
\<close>

definition linearly_independent :: "prob_row list \<Rightarrow> bool" where
  "linearly_independent probs \<longleftrightarrow>
     (\<forall>c1 c2. (\<forall>r \<in> set probs. c1 * sig r + c2 * bck r = 0) \<longrightarrow> c1 = 0 \<and> c2 = 0)"

text \<open>The quadratic form \<open>x\<^sup>T V x\<close> of the matrix of second moments.\<close>

definition quadratic_V :: "prob_row list \<Rightarrow> (species \<Rightarrow> real) \<Rightarrow> real" where
  "quadratic_V probs x =
     x Sig * (V Sig Sig probs * x Sig + V Sig Bkg probs * x Bkg)
     + x Bkg * (V Bkg Sig probs * x Sig + V Bkg Bkg probs * x Bkg)"

text \<open>
  The optimisation problem of lines 1005-1014, following the notebook's words:
  \<^verbatim>\<open>
  sum_x sw_s(x)^2 -> min
  sum_x sw_s(x) p_b(x) = 0
  sum_x sw_s(x) p_s(x) = N_sig
  \<close>
  A candidate is a list of weights, one per event.
\<close>

definition dot :: "real list \<Rightarrow> real list \<Rightarrow> real" where
  "dot w v = (\<Sum>(x, y)\<leftarrow>zip w v. x * y)"

definition objective :: "real list \<Rightarrow> real" where
  "objective w = (\<Sum>x\<leftarrow>w. x\<^sup>2)"

definition feasible :: "real \<Rightarrow> prob_row list \<Rightarrow> real list \<Rightarrow> bool" where
  "feasible N_sig probs w \<longleftrightarrow>
     length w = length probs \<and>
     dot w (map bck probs) = 0 \<and>
     dot w (map sig probs) = N_sig"

definition unique_minimiser :: "real \<Rightarrow> prob_row list \<Rightarrow> real list \<Rightarrow> bool" where
  "unique_minimiser N_sig probs w \<longleftrightarrow>
     feasible N_sig probs w \<and>
     (\<forall>w'. feasible N_sig probs w' \<longrightarrow> objective w \<le> objective w') \<and>
     (\<forall>w'. feasible N_sig probs w' \<and> objective w' \<le> objective w \<longrightarrow> w' = w)"

section \<open>The sWeights formula of the fitted model\<close>

text \<open>
  Notebook \<^verbatim>\<open>advanced-python/60sPlot.ipynb\<close>, lines 460-476 state what
  \<^verbatim>\<open>hepstats.splot.compute_sweights\<close> (called at line 492) computes from the fitted
  yields \<open>N_k\<close> and the densities \<open>f_k\<close>:
  \<^verbatim>\<open>
  W_n(x) = (sum_j V_nj f_j(x)) / (sum_k N_k f_k(x))
  V^-1_nj = sum_e f_n(x_e) f_j(x_e) / (sum_k N_k f_k(x_e))^2
  \<close>
  with two sources, signal and background.  A row of the sample holds the two
  density values \<open>f_sig(x_e)\<close> and \<open>f_bkg(x_e)\<close> of one event; the result has one row
  of weights per event, with one column per source.
\<close>

text \<open>The denominator \<open>sum_k N_k f_k(x_e)\<close>.\<close>

definition total_density :: "(species \<Rightarrow> real) \<Rightarrow> prob_row \<Rightarrow> real" where
  "total_density N r = N Sig * dens Sig r + N Bkg * dens Bkg r"

text \<open>The matrix the notebook calls \<open>V^-1\<close>.\<close>

definition V_inv :: "(species \<Rightarrow> real) \<Rightarrow> species \<Rightarrow> species \<Rightarrow> prob_row list \<Rightarrow> real" where
  "V_inv N n j F = (\<Sum>r\<leftarrow>F. dens n r * dens j r / (total_density N r)\<^sup>2)"

text \<open>
  Modelled from the spec: the matrix inversion is a routine of an external
  numerical library and is not among the sources.  The model inverts the
  \<open>2 \<times> 2\<close> matrix by the adjugate formula in exact arithmetic and fails with the
  singular-matrix error of the specification when the determinant vanishes.
  The result lists the entries \<open>(1,1)\<close>, \<open>(1,2)\<close>, \<open>(2,1)\<close>, \<open>(2,2)\<close> of the inverse.
\<close>

definition invert2 :: "real \<Rightarrow> real \<Rightarrow> real \<Rightarrow> real \<Rightarrow> error + real \<times> real \<times> real \<times> real" where
  "invert2 m11 m12 m21 m22 =
     (let d = m11 * m22 - m12 * m21 in
      if d = 0 then Inl Singular_matrix
      else Inr (m22 / d, - m12 / d, - m21 / d, m11 / d))"

text \<open>The weights \<open>W_sig(x_e)\<close> and \<open>W_bkg(x_e)\<close> of one event.\<close>

definition W :: "(species \<Rightarrow> real) \<Rightarrow> real \<times> real \<times> real \<times> real \<Rightarrow> prob_row \<Rightarrow> prob_row" where
  "W N Vm r =
     (case Vm of (v_ss, v_sb, v_bs, v_bb) \<Rightarrow>
        \<lparr>sig = (v_ss * dens Sig r + v_sb * dens Bkg r) / total_density N r,
         bck = (v_bs * dens Sig r + v_bb * dens Bkg r) / total_density N r\<rparr>)"

text \<open>
  Modelled from the spec: the body of \<^verbatim>\<open>hepstats.splot.compute_sweights\<close> is not
  among the sources; the definition follows the formula above.  A vanishing
  denominator leaves the ratios undefined; the model reports it as
  \<open>Undefined_ratio\<close>.
\<close>

definition hepstats_compute_sweights :: "(species \<Rightarrow> real) \<Rightarrow> prob_row list \<Rightarrow> error + prob_row list" where
  "hepstats_compute_sweights N F =
     (if \<exists>r \<in> set F. total_density N r = 0 then Inl Undefined_ratio
      else case invert2 (V_inv N Sig Sig F) (V_inv N Sig Bkg F) (V_inv N Bkg Sig F) (V_inv N Bkg Bkg F) of
             Inl e \<Rightarrow> Inl e
           | Inr Vm \<Rightarrow> Inr (map (W N Vm) F))"

text \<open>
  The conditions of the extended maximum-likelihood fit: the extended
  log-likelihood \<open>sum_e log (sum_k N_k f_k(x_e)) - sum_k N_k\<close> is stationary in each
  yield, that is \<open>sum_e f_n(x_e) / (sum_k N_k f_k(x_e)) = 1\<close> for each source \<open>n\<close>.
\<close>

definition ml_fit_conditions :: "(species \<Rightarrow> real) \<Rightarrow> prob_row list \<Rightarrow> bool" where
  "ml_fit_conditions N F \<longleftrightarrow>
     (\<Sum>r\<leftarrow>F. dens Sig r / total_density N r) = 1 \<and>
     (\<Sum>r\<leftarrow>F. dens Bkg r / total_density N r) = 1"

definition det_V_inv :: "(species \<Rightarrow> real) \<Rightarrow> prob_row list \<Rightarrow> real" where
  "det_V_inv N F = V_inv N Sig Sig F * V_inv N Bkg Bkg F - V_inv N Sig Bkg F * V_inv N Bkg Sig F"

section \<open>The Build webpage workflow\<close>

text \<open>
  The continuous-integration workflow \<^verbatim>\<open>Build webpage\<close> has one job,
  \<^verbatim>\<open>build-pages\<close>, with five steps.
  The model keeps what decides which external commands run, in what order and
  with what outcome for the job.  It rests on these rules of the workflow
  runner:
  \<^item> the job runs only if its \<^verbatim>\<open>if\<close> holds, otherwise it is skipped;
  \<^item> the steps run in the order of the file; a step whose \<^verbatim>\<open>if\<close> names no status
    function runs only as long as every earlier step has succeeded, and only if
    its own condition holds;
  \<^item> a \<^verbatim>\<open>uses\<close> step succeeds or fails as the action decides;
  \<^item> a \<^verbatim>\<open>run\<close> step with \<^verbatim>\<open>shell: bash -l {0}\<close> hands its script to a login shell
    without the exit-on-error option: the commands run one after the other, the
    exit status of the script is that of its last command, and a nonzero status
    fails the step and with it the job.
  The operator \<^verbatim>\<open>==\<close> of the conditions is read as equality of strings, the context
  values being spelled as the runner delivers them.  The trigger filters, the
  cancellation of superseded runs and the clean-up that an action registers for
  the end of the job are not part of the model.
\<close>

text \<open>The part of the \<^verbatim>\<open>github\<close> context and of the secrets that the workflow reads.\<close>

record github =
  event_name :: string
  repository :: string
  ref :: string
  github_token :: string

text \<open>
  A line of a \<^verbatim>\<open>run\<close> script: \<^verbatim>\<open>export VAR=value\<close>, or the call of an external
  command.
\<close>

datatype command = Export string string | Exec string

datatype body = Uses string | Run "command list"

record step =
  step_name :: "string option"
  step_if :: "github \<Rightarrow> bool"
  step_body :: body

text \<open>
  What a run does, in order: a step starts, an action is used, a variable is
  exported, an external command is invoked.
\<close>

datatype action = Started "string option" | Used string | Set_env string string | Invoked string

text \<open>
  The outcomes that the workflow does not decide: whether an action succeeds, and
  the exit status of an external command.
\<close>

record runner =
  uses_ok :: "string \<Rightarrow> bool"
  exit_status :: "string \<Rightarrow> int"

fun exec_command :: "runner \<Rightarrow> command \<Rightarrow> action \<times> int" where
  "exec_command rn (Export v x) = (Set_env v x, 0)"
| "exec_command rn (Exec c) = (Invoked c, exit_status rn c)"

text \<open>The script runs to its end; its status is that of the last command.\<close>

fun run_script :: "runner \<Rightarrow> command list \<Rightarrow> int \<Rightarrow> action list \<times> int" where
  "run_script rn [] st = ([], st)"
| "run_script rn (c # cs) st =
     (let (a, st') = exec_command rn c;
          (tr, st'') = run_script rn cs st'
      in (a # tr, st''))"

fun run_body :: "runner \<Rightarrow> body \<Rightarrow> action list \<times> bool" where
  "run_body rn (Uses a) = ([Used a], uses_ok rn a)"
| "run_body rn (Run cs) = (let (tr, st) = run_script rn cs 0 in (tr, st = 0))"

datatype conclusion = Skipped | Succeeded | Failed

text \<open>
  \<open>run_steps rn g steps ok\<close>: \<open>ok\<close> tells whether every earlier step has succeeded.
\<close>

fun run_steps :: "runner \<Rightarrow> github \<Rightarrow> step list \<Rightarrow> bool \<Rightarrow> action list \<times> bool" where
  "run_steps rn g [] ok = ([], ok)"
| "run_steps rn g (s # ss) ok =
     (if ok \<and> step_if s g
      then (let (tr, ok') = run_body rn (step_body s);
                (tr', ok'') = run_steps rn g ss ok'
            in (Started (step_name s) # tr @ tr', ok''))
      else run_steps rn g ss ok)"

text \<open>The shell expansion \<^verbatim>\<open>${GITHUB_REF#refs/heads/}\<close>.\<close>

definition remove_prefix :: "string \<Rightarrow> string \<Rightarrow> string" where
  "remove_prefix pre s = (if take (length pre) s = pre then drop (length pre) s else s)"

text \<open>The condition of a step that has no \<^verbatim>\<open>if\<close> of its own.\<close>

definition no_if :: "github \<Rightarrow> bool" where
  "no_if g = True"

text \<open>
  \<^verbatim>\<open>if: github.event_name == 'pull_request' || github.repository == 'hsf-training/analysis-essentials'\<close>
\<close>

definition build_pages_if :: "github \<Rightarrow> bool" where
  "build_pages_if g \<longleftrightarrow>
     event_name g = ''pull_request'' \<or> repository g = ''hsf-training/analysis-essentials''"

text \<open>
  \<^verbatim>\<open>if: github.event_name == 'push' && github.repository == 'hsf-training/analysis-essentials' && github.ref == 'refs/heads/master'\<close>
\<close>

definition deploy_if :: "github \<Rightarrow> bool" where
  "deploy_if g \<longleftrightarrow>
     event_name g = ''push'' \<and> repository g = ''hsf-training/analysis-essentials''
     \<and> ref g = ''refs/heads/master''"

definition pip_install :: string where
  "pip_install = ''pip install git+https://github.com/lhcb/starterkit-ci.git@cburr-gh-actions''"

definition starterkit_ci_build :: string where
  "starterkit_ci_build = ''starterkit_ci build''"

definition starterkit_ci_deploy :: string where
  "starterkit_ci_deploy = ''starterkit_ci deploy''"

text \<open>
  The steps: \<^verbatim>\<open>Checkout code\<close>, the set-up of the conda environment,
  \<^verbatim>\<open>Install starterkit-ci\<close>, \<^verbatim>\<open>Build webpage\<close> and \<^verbatim>\<open>Deploy webpage\<close>, whose script is
  \<^verbatim>\<open>
  export TRAVIS_BRANCH=${GITHUB_REF#refs/heads/}
  export TRAVIS_REPO_SLUG=${{ github.repository }}
  export INPUT_GITHUB_TOKEN=${{ secrets.GITHUB_TOKEN }}

  starterkit_ci deploy
  \<close>
\<close>

definition build_pages_steps :: "github \<Rightarrow> step list" where
  "build_pages_steps g =
     [\<lparr>step_name = Some ''Checkout code'', step_if = no_if,
       step_body = Uses ''actions/checkout@v4''\<rparr>,
      \<lparr>step_name = None, step_if = no_if,
       step_body = Uses ''conda-incubator/setup-miniconda@v2''\<rparr>,
      \<lparr>step_name = Some ''Install starterkit-ci'', step_if = no_if,
       step_body = Run [Exec pip_install]\<rparr>,
      \<lparr>step_name = Some ''Build webpage'', step_if = no_if,
       step_body = Run [Exec starterkit_ci_build]\<rparr>,
      \<lparr>step_name = Some ''Deploy webpage'', step_if = deploy_if,
       step_body = Run [Export ''TRAVIS_BRANCH'' (remove_prefix ''refs/heads/'' (ref g)),
                        Export ''TRAVIS_REPO_SLUG'' (repository g),
                        Export ''INPUT_GITHUB_TOKEN'' (github_token g),
                        Exec starterkit_ci_deploy]\<rparr>]"

definition build_webpage :: "runner \<Rightarrow> github \<Rightarrow> action list \<times> conclusion" where
  "build_webpage rn g =
     (if build_pages_if g
      then (let (tr, ok) = run_steps rn g (build_pages_steps g) True
            in (tr, if ok then Succeeded else Failed))
      else ([], Skipped))"

definition trace :: "runner \<Rightarrow> github \<Rightarrow> action list" where
  "trace rn g = fst (build_webpage rn g)"

definition job_conclusion :: "runner \<Rightarrow> github \<Rightarrow> conclusion" where
  "job_conclusion rn g = snd (build_webpage rn g)"

text \<open>The actions before the first occurrence of an action, and those from it on.\<close>

definition before :: "action \<Rightarrow> action list \<Rightarrow> action list" where
  "before a tr = takeWhile (\<lambda>x. x \<noteq> a) tr"

definition from_first :: "action \<Rightarrow> action list \<Rightarrow> action list" where
  "from_first a tr = dropWhile (\<lambda>x. x \<noteq> a) tr"

section \<open>Derived columns of the data frames\<close>

text \<open>
  The notebook \<^verbatim>\<open>2: First look at data\<close> adds columns to the frame \<^verbatim>\<open>data_df\<close> of
  the recorded events (cells at lines 354-378 of the notebook file):
  \<^verbatim>\<open>
  data_df.eval('Jpsi_eta = arctanh(Jpsi_PZ/Jpsi_P)', inplace=True)
  data_df.eval('mup_P = sqrt(mup_PX**2 + mup_PY**2 + mup_PZ**2)', inplace=True)
  data_df.eval('mum_P = sqrt(mum_PX**2 + mum_PY**2 + mum_PZ**2)', inplace=True)
  \<close>
  and to the frame \<^verbatim>\<open>mc_df\<close> of the simulated events (cell at lines 537-544):
  \<^verbatim>\<open>
  mc_df.eval('Jpsi_eta = arctanh(Jpsi_PZ/Jpsi_P)', inplace=True)
  mc_df.eval('mup_P = sqrt(mum_PX**2 + mum_PY**2 + mum_PZ**2)', inplace=True)
  mc_df.eval('mum_P = sqrt(mum_PX**2 + mum_PY**2 + mum_PZ**2)', inplace=True)
  \<close>
  A frame maps a column name to its column.  A cell is a real number, or \<open>None\<close>
  where the floating-point operation yields no finite number (division by zero,
  \<^verbatim>\<open>arctanh\<close> outside \<open>(-1, 1)\<close>, square root of a negative number).  The file read
  into the frame is not part of the model: the frame is a parameter.
\<close>

type_synonym cell = "real option"

type_synonym frame = "string \<rightharpoonup> cell list"

text \<open>The expressions that occur in the \<^verbatim>\<open>eval\<close> strings.\<close>

datatype expr =
    ECol string
  | EAdd expr expr
  | EDiv expr expr
  | EPow expr nat
  | ESqrt expr
  | EArctanh expr

datatype eval_error = UndefinedVariableError string

fun add_cell :: "cell \<Rightarrow> cell \<Rightarrow> cell" where
  "add_cell (Some x) (Some y) = Some (x + y)"
| "add_cell _ _ = None"

fun div_cell :: "cell \<Rightarrow> cell \<Rightarrow> cell" where
  "div_cell (Some x) (Some y) = (if y = 0 then None else Some (x / y))"
| "div_cell _ _ = None"

fun pow_cell :: "nat \<Rightarrow> cell \<Rightarrow> cell" where
  "pow_cell n (Some x) = Some (x ^ n)"
| "pow_cell n None = None"

fun sqrt_cell :: "cell \<Rightarrow> cell" where
  "sqrt_cell (Some x) = (if x < 0 then None else Some (sqrt x))"
| "sqrt_cell None = None"

fun arctanh_cell :: "cell \<Rightarrow> cell" where
  "arctanh_cell (Some x) = (if - 1 < x \<and> x < 1 then Some (artanh x) else None)"
| "arctanh_cell None = None"

text \<open>
  Evaluation is column-wise; a name that is not a column of the frame raises
  \<^verbatim>\<open>UndefinedVariableError\<close>.
\<close>

fun eval_expr :: "frame \<Rightarrow> expr \<Rightarrow> eval_error + cell list" where
  "eval_expr df (ECol c) =
     (case df c of None \<Rightarrow> Inl (UndefinedVariableError c) | Some xs \<Rightarrow> Inr xs)"
| "eval_expr df (EAdd a b) =
     (case eval_expr df a of
        Inl e \<Rightarrow> Inl e
      | Inr xs \<Rightarrow> (case eval_expr df b of
                     Inl e \<Rightarrow> Inl e
                   | Inr ys \<Rightarrow> Inr (map2 add_cell xs ys)))"
| "eval_expr df (EDiv a b) =
     (case eval_expr df a of
        Inl e \<Rightarrow> Inl e
      | Inr xs \<Rightarrow> (case eval_expr df b of
                     Inl e \<Rightarrow> Inl e
                   | Inr ys \<Rightarrow> Inr (map2 div_cell xs ys)))"
| "eval_expr df (EPow a n) =
     (case eval_expr df a of Inl e \<Rightarrow> Inl e | Inr xs \<Rightarrow> Inr (map (pow_cell n) xs))"
| "eval_expr df (ESqrt a) =
     (case eval_expr df a of Inl e \<Rightarrow> Inl e | Inr xs \<Rightarrow> Inr (map sqrt_cell xs))"
| "eval_expr df (EArctanh a) =
     (case eval_expr df a of Inl e \<Rightarrow> Inl e | Inr xs \<Rightarrow> Inr (map arctanh_cell xs))"

text \<open>\<^verbatim>\<open>df.eval('target = e', inplace=True)\<close>: the column is added or replaced.\<close>

definition df_eval :: "string \<Rightarrow> expr \<Rightarrow> frame \<Rightarrow> eval_error + frame" where
  "df_eval target e df =
     (case eval_expr df e of Inl err \<Rightarrow> Inl err | Inr xs \<Rightarrow> Inr (df(target \<mapsto> xs)))"

text \<open>The statements of a cell run in order; an exception ends the cell.\<close>

definition and_then :: "eval_error + frame \<Rightarrow> (frame \<Rightarrow> eval_error + frame) \<Rightarrow> eval_error + frame" where
  "and_then r f = (case r of Inl err \<Rightarrow> Inl err | Inr df \<Rightarrow> f df)"

definition data_df_add_variables :: "frame \<Rightarrow> eval_error + frame" where
  "data_df_add_variables data_df =
     and_then (and_then
       (df_eval ''Jpsi_eta'' (EArctanh (EDiv (ECol ''Jpsi_PZ'') (ECol ''Jpsi_P''))) data_df)
       (df_eval ''mup_P''
          (ESqrt (EAdd (EAdd (EPow (ECol ''mup_PX'') 2) (EPow (ECol ''mup_PY'') 2)) (EPow (ECol ''mup_PZ'') 2)))))
       (df_eval ''mum_P''
          (ESqrt (EAdd (EAdd (EPow (ECol ''mum_PX'') 2) (EPow (ECol ''mum_PY'') 2)) (EPow (ECol ''mum_PZ'') 2))))"

definition mc_df_add_variables :: "frame \<Rightarrow> eval_error + frame" where
  "mc_df_add_variables mc_df =
     and_then (and_then
       (df_eval ''Jpsi_eta'' (EArctanh (EDiv (ECol ''Jpsi_PZ'') (ECol ''Jpsi_P''))) mc_df)
       (df_eval ''mup_P''
          (ESqrt (EAdd (EAdd (EPow (ECol ''mum_PX'') 2) (EPow (ECol ''mum_PY'') 2)) (EPow (ECol ''mum_PZ'') 2)))))
       (df_eval ''mum_P''
          (ESqrt (EAdd (EAdd (EPow (ECol ''mum_PX'') 2) (EPow (ECol ''mum_PY'') 2)) (EPow (ECol ''mum_PZ'') 2))))"

text \<open>The absolute value of a three-momentum, computed on whole columns.\<close>

definition momentum_column :: "cell list \<Rightarrow> cell list \<Rightarrow> cell list \<Rightarrow> cell list" where
  "momentum_column xs ys zs =
     map sqrt_cell (map2 add_cell (map2 add_cell (map (pow_cell 2) xs) (map (pow_cell 2) ys))
       (map (pow_cell 2) zs))"

text \<open>A frame with one event.\<close>

definition example_df :: frame where
  "example_df =
     [''Jpsi_PZ'' \<mapsto> [Some 3], ''Jpsi_P'' \<mapsto> [Some 5],
      ''mup_PX'' \<mapsto> [Some 2], ''mup_PY'' \<mapsto> [Some 0], ''mup_PZ'' \<mapsto> [Some 0],
      ''mum_PX'' \<mapsto> [Some 0], ''mum_PY'' \<mapsto> [Some 1], ''mum_PZ'' \<mapsto> [Some 0]]"

chapter \<open>Properties\<close>

section \<open>Rounding errors of the floating-point operations\<close>

lemma round_half_even_error: "\<bar>of_int (round_half_even y) - y\<bar> \<le> 1 / 2"
  unfolding round_half_even_def Let_def by (auto simp: abs_if) linarith+

lemma round_half_even_of_int [simp]: "round_half_even (of_int k) = k"
  by (simp add: round_half_even_def)

lemma round_half_even_bound:
  assumes "\<bar>y\<bar> < of_int N"
  shows "\<bar>round_half_even y\<bar> \<le> N"
proof -
  from assms have "y < of_int N" "- of_int N < y" by linarith+
  then have "\<lfloor>y\<rfloor> < N" "- N \<le> \<lfloor>y\<rfloor>"
    by (simp_all add: floor_less_iff le_floor_iff less_imp_le)
  moreover have "round_half_even y = \<lfloor>y\<rfloor> \<or> round_half_even y = \<lfloor>y\<rfloor> + 1"
    by (simp add: round_half_even_def Let_def)
  ultimately show ?thesis by auto
qed

lemma spacing_pos [simp]: "0 < spacing x"
  by (simp add: spacing_def)

lemma spacing_nonzero [simp]: "spacing x \<noteq> 0"
  by (simp add: spacing_def)

lemma round_float64_error: "\<bar>round_float64 x - x\<bar> \<le> spacing x / 2"
proof (cases "x = 0")
  case True
  then show ?thesis by (simp add: round_float64_def less_imp_le)
next
  case False
  let ?q = "spacing x"
  have "round_float64 x - x = (of_int (round_half_even (x / ?q)) - x / ?q) * ?q"
    using False by (simp add: round_float64_def left_diff_distrib)
  then have "\<bar>round_float64 x - x\<bar> = \<bar>of_int (round_half_even (x / ?q)) - x / ?q\<bar> * ?q"
    by (simp add: abs_mult less_imp_le)
  also have "\<dots> \<le> 1 / 2 * ?q"
    by (intro mult_right_mono round_half_even_error) (simp add: less_imp_le)
  finally show ?thesis by simp
qed

lemma exponent_eqI:
  assumes "2 powi e \<le> \<bar>x\<bar>" "\<bar>x\<bar> < 2 powi (e + 1)" "- 1022 \<le> e"
  shows "exponent x = e"
proof -
  have "(0::real) < 2 powi e" by simp
  with assms(1) have pos: "0 < \<bar>x\<bar>" by linarith
  have "2 powr (of_int e) \<le> \<bar>x\<bar>" "\<bar>x\<bar> < 2 powr (of_int (e + 1))"
    using assms by (simp_all only: powr_real_of_int' [of 2, simplified])
  then have "\<lfloor>log 2 \<bar>x\<bar>\<rfloor> = e"
    using pos by (subst floor_log_eq_powr_iff) simp_all
  with assms(3) show ?thesis by (simp add: exponent_def)
qed

lemma exponent_subnormal:
  assumes "\<bar>x\<bar> < 2 powi (- 1022)" and "x \<noteq> 0"
  shows "exponent x = - 1022"
proof -
  from assms(2) have pos: "0 < \<bar>x\<bar>" by simp
  have "\<lfloor>log 2 \<bar>x\<bar>\<rfloor> < - 1022"
  proof (rule ccontr)
    assume "\<not> \<lfloor>log 2 \<bar>x\<bar>\<rfloor> < - 1022"
    then have "(- 1022 :: real) \<le> log 2 \<bar>x\<bar>" by linarith
    then have "2 powr (- 1022) \<le> \<bar>x\<bar>"
      using pos by (simp add: le_log_iff)
    moreover have "(2::real) powr (- 1022) = 2 powi (- 1022)"
      using powr_real_of_int' [of 2 "- 1022"] by simp
    ultimately show False using assms by simp
  qed
  then show ?thesis by (simp add: exponent_def)
qed

lemma exponent_normal:
  assumes "2 powi (- 1022) \<le> \<bar>x\<bar>"
  shows "2 powi exponent x \<le> \<bar>x\<bar>" "- 1022 \<le> exponent x"
proof -
  have "(0::real) < 2 powi (- 1022)" by simp
  with assms have pos: "0 < \<bar>x\<bar>" by linarith
  have "(2::real) powr (- 1022) = 2 powi (- 1022)"
    using powr_real_of_int' [of 2 "- 1022"] by simp
  with assms have "(- 1022 :: real) \<le> log 2 \<bar>x\<bar>"
    using pos by (simp add: le_log_iff)
  then have ge: "- 1022 \<le> \<lfloor>log 2 \<bar>x\<bar>\<rfloor>" by linarith
  then have e: "exponent x = \<lfloor>log 2 \<bar>x\<bar>\<rfloor>" by (simp add: exponent_def)
  have "2 powr (of_int \<lfloor>log 2 \<bar>x\<bar>\<rfloor>) \<le> \<bar>x\<bar>"
    using pos floor_log_eq_powr_iff [of "\<bar>x\<bar>" 2 "\<lfloor>log 2 \<bar>x\<bar>\<rfloor>"] by simp
  then show "2 powi exponent x \<le> \<bar>x\<bar>"
    by (simp add: e powr_real_of_int')
  show "- 1022 \<le> exponent x" by (simp add: exponent_def)
qed

lemma abs_less_next_binade:
  assumes "x \<noteq> 0"
  shows "\<bar>x\<bar> < 2 powi (exponent x + 1)"
proof -
  from assms have pos: "0 < \<bar>x\<bar>" by simp
  have "\<bar>x\<bar> < 2 powr (of_int (\<lfloor>log 2 \<bar>x\<bar>\<rfloor> + 1))"
    using pos floor_log_eq_powr_iff [of "\<bar>x\<bar>" 2 "\<lfloor>log 2 \<bar>x\<bar>\<rfloor>"] by simp
  then have "\<bar>x\<bar> < 2 powi (\<lfloor>log 2 \<bar>x\<bar>\<rfloor> + 1)"
    by (simp only: powr_real_of_int' [of 2, simplified])
  also have "\<dots> \<le> 2 powi (exponent x + 1)"
    by (rule power_int_increasing) (simp_all add: exponent_def)
  finally show ?thesis .
qed

lemma exponent_le:
  assumes "x \<noteq> 0" and "\<bar>x\<bar> < 2 powi (e + 1)" and "- 1022 \<le> e"
  shows "exponent x \<le> e"
proof -
  from assms(1) have pos: "0 < \<bar>x\<bar>" by simp
  have "\<bar>x\<bar> < 2 powr (of_int (e + 1))"
    using assms(2) by (simp only: powr_real_of_int' [of 2, simplified])
  then have "log 2 \<bar>x\<bar> < of_int (e + 1)"
    using pos by (simp add: log_less_iff)
  then have "\<lfloor>log 2 \<bar>x\<bar>\<rfloor> \<le> e"
    by (simp add: floor_le_iff)
  with assms(3) show ?thesis by (simp add: exponent_def)
qed

text \<open>The rounding of a number whose binade is known, for evaluation.\<close>

lemma round_float64_eval:
  assumes "2 powi e \<le> \<bar>x\<bar>" "\<bar>x\<bar> < 2 powi (e + 1)" "- 1022 \<le> e"
  shows "round_float64 x = of_int (round_half_even (x / 2 powi (e - 52))) * 2 powi (e - 52)"
proof -
  have "(0::real) < 2 powi e" by simp
  with assms(1) have "0 < \<bar>x\<bar>" by linarith
  then have "x \<noteq> 0" by simp
  moreover have "exponent x = e" using assms by (rule exponent_eqI)
  ultimately show ?thesis by (simp add: round_float64_def spacing_def)
qed

lemma to_float64_eval:
  assumes "2 powi e \<le> \<bar>x\<bar>" "\<bar>x\<bar> < 2 powi (e + 1)" "- 1022 \<le> e"
    and "r = of_int (round_half_even (x / 2 powi (e - 52))) * 2 powi (e - 52)"
    and "\<bar>r\<bar> < 2 ^ 1024"
  shows "to_float64 x = Finite r"
  using assms(5)
  unfolding to_float64_def Let_def round_float64_eval [OF assms(1-3)] assms(4) [symmetric]
  by simp

lemma representableI:
  assumes "2 powi e \<le> \<bar>x\<bar>" "\<bar>x\<bar> < 2 powi (e + 1)" "- 1022 \<le> e" "e \<le> 1023"
    and "x / 2 powi (e - 52) = of_int k"
  shows "representable x"
proof -
  have x: "of_int k * 2 powi (e - 52) = x"
    using assms(5) by (simp add: field_simps)
  have "round_float64 x = of_int (round_half_even (x / 2 powi (e - 52))) * 2 powi (e - 52)"
    by (rule round_float64_eval [OF assms(1-3)])
  also have "\<dots> = of_int k * 2 powi (e - 52)"
    by (simp only: assms(5) round_half_even_of_int)
  finally have "round_float64 x = x"
    by (simp only: x)
  moreover have "(2::real) powi (e + 1) \<le> 2 powi 1024"
    using assms(4) by (intro power_int_increasing) simp_all
  then have "\<bar>x\<bar> < 2 ^ 1024"
    using assms(2) by simp
  ultimately show ?thesis by (simp add: representable_def)
qed

text \<open>The relative error of rounding is at most the unit roundoff, above the subnormal range.\<close>

lemma unit_roundoff_bounds:
  "0 < unit_roundoff" "unit_roundoff \<le> 1 / 8" "half_least_subnormal \<le> unit_roundoff / 8"
  "0 < half_least_subnormal"
  by (simp_all add: unit_roundoff_def half_least_subnormal_def power_int_minus field_simps)

lemma round_float64_normal_error:
  assumes "2 powi (- 1022) \<le> \<bar>x\<bar>"
  shows "\<bar>round_float64 x - x\<bar> \<le> unit_roundoff * \<bar>x\<bar>"
proof -
  have "spacing x / 2 = 2 powi exponent x * unit_roundoff"
    by (simp add: spacing_def unit_roundoff_def power_int_diff power_int_minus)
  also have "\<dots> \<le> \<bar>x\<bar> * unit_roundoff"
    by (intro mult_right_mono exponent_normal(1) [OF assms]) (simp add: unit_roundoff_def)
  finally show ?thesis
    using round_float64_error [of x] by (simp add: mult.commute)
qed

lemma round_float64_subnormal_error:
  assumes "\<bar>x\<bar> < 2 powi (- 1022)"
  shows "\<bar>round_float64 x - x\<bar> \<le> half_least_subnormal"
proof (cases "x = 0")
  case True
  then show ?thesis by (simp add: round_float64_def half_least_subnormal_def)
next
  case False
  have "spacing x / 2 = half_least_subnormal"
    by (simp add: spacing_def exponent_subnormal [OF assms False] half_least_subnormal_def
        power_int_minus)
  then show ?thesis using round_float64_error [of x] by simp
qed

lemma round_float64_general_error:
  "\<bar>round_float64 x - x\<bar> \<le> unit_roundoff * \<bar>x\<bar> + half_least_subnormal"
proof (cases "2 powi (- 1022) \<le> \<bar>x\<bar>")
  case True
  from round_float64_normal_error [OF True] show ?thesis
    by (simp add: half_least_subnormal_def add_increasing2)
next
  case False
  then have "\<bar>x\<bar> < 2 powi (- 1022)" by simp
  from round_float64_subnormal_error [OF this]
  have "\<bar>round_float64 x - x\<bar> \<le> half_least_subnormal" .
  moreover have "0 \<le> unit_roundoff * \<bar>x\<bar>" by (simp add: unit_roundoff_def)
  ultimately show ?thesis by linarith
qed

text \<open>
  Every rounded value is a multiple of the least subnormal number, and such
  multiples are not changed by rounding in the subnormal range: sums of
  floating-point numbers have no underflow error.
\<close>

lemma round_float64_grid:
  assumes "x = of_int k * 2 powi (- 1074)" "\<bar>x\<bar> < 2 powi (- 1022)"
  shows "round_float64 x = x"
proof (cases "x = 0")
  case True
  then show ?thesis by (simp add: round_float64_def)
next
  case False
  have s: "spacing x = 2 powi (- 1074)"
    by (simp add: spacing_def exponent_subnormal [OF assms(2) False])
  have "x / spacing x = of_int k"
    unfolding s using assms(1) by simp
  then show ?thesis
    using False assms(1) by (simp add: round_float64_def s)
qed

lemma round_float64_grid_point: "\<exists>k. round_float64 x = of_int k * 2 powi (- 1074)"
proof (cases "x = 0")
  case True
  then have "round_float64 x = of_int 0 * 2 powi (- 1074)" by (simp add: round_float64_def)
  then show ?thesis by blast
next
  case False
  define m where "m = round_half_even (x / spacing x)"
  define n where "n = nat (exponent x + 1022)"
  have ge: "- 1022 \<le> exponent x" by (simp add: exponent_def)
  from False have x: "round_float64 x = of_int m * spacing x"
    by (simp add: round_float64_def m_def)
  have e: "exponent x - 52 = - 1074 + int n"
    using ge by (simp add: n_def)
  have "spacing x = 2 powi (- 1074 + int n)"
    by (simp only: spacing_def e)
  also have "\<dots> = 2 powi (- 1074) * 2 powi (int n)"
    by (rule power_int_add) simp
  finally have "spacing x = 2 powi (- 1074) * 2 ^ n"
    by (simp only: power_int_of_nat)
  with x have "round_float64 x = of_int m * (2 powi (- 1074) * 2 ^ n)"
    by (simp only:)
  then have "round_float64 x = of_int (m * 2 ^ n) * 2 powi (- 1074)"
    by (simp only: of_int_mult of_int_power of_int_numeral mult_ac)
  then show ?thesis by blast
qed

lemma representable_grid_point:
  assumes "representable x"
  shows "\<exists>k. x = of_int k * 2 powi (- 1074)"
  using round_float64_grid_point [of x] assms by (simp add: representable_def)

lemma round_float64_sum_error:
  assumes "\<exists>k. a = of_int k * 2 powi (- 1074)" "\<exists>k. b = of_int k * 2 powi (- 1074)"
  shows "\<bar>round_float64 (a + b) - (a + b)\<bar> \<le> unit_roundoff * \<bar>a + b\<bar>"
proof (cases "2 powi (- 1022) \<le> \<bar>a + b\<bar>")
  case True
  then show ?thesis by (rule round_float64_normal_error)
next
  case False
  then have small: "\<bar>a + b\<bar> < 2 powi (- 1022)" by simp
  from assms(1) obtain k where a: "a = of_int k * 2 powi (- 1074)" ..
  from assms(2) obtain l where b: "b = of_int l * 2 powi (- 1074)" ..
  have "a + b = of_int (k + l) * 2 powi (- 1074)"
    by (simp add: a b distrib_right)
  from round_float64_grid [OF this small] show ?thesis
    by (simp add: unit_roundoff_def)
qed


text \<open>The operations return floating-point numbers: rounding is idempotent.\<close>

lemma round_float64_multiple:
  assumes "x = of_int k * 2 powi (e - 52)" and "exponent x \<le> e"
  shows "round_float64 x = x"
proof (cases "x = 0")
  case True
  then show ?thesis by (simp add: round_float64_def)
next
  case False
  define n where "n = nat (e - exponent x)"
  define q where "q = spacing x"
  define K where "K = k * 2 ^ n"
  have qnz: "q \<noteq> 0" by (simp add: q_def)
  have e: "e - 52 = (exponent x - 52) + int n"
    using assms(2) by (simp add: n_def)
  have "2 powi (e - 52) = (2::real) powi ((exponent x - 52) + int n)"
    by (simp only: e)
  also have "\<dots> = 2 powi (exponent x - 52) * 2 powi (int n)"
    by (rule power_int_add) simp
  finally have "2 powi (e - 52) = q * 2 ^ n"
    by (simp only: power_int_of_nat spacing_def q_def)
  with assms(1) have "x = of_int k * (q * 2 ^ n)"
    by (simp only:)
  then have x: "x = of_int K * q"
    by (simp only: K_def of_int_mult of_int_power of_int_numeral mult_ac)
  then have "x / q = of_int K"
    using qnz by simp
  then have "round_half_even (x / q) = K"
    by (simp only: round_half_even_of_int)
  then have "round_float64 x = of_int K * q"
    using False by (simp only: round_float64_def if_False q_def)
  with x show ?thesis by simp
qed

lemma round_float64_idem: "round_float64 (round_float64 x) = round_float64 x"
proof (cases "x = 0 \<or> round_float64 x = 0")
  case True
  then show ?thesis by (auto simp add: round_float64_def)
next
  case False
  then have nz: "x \<noteq> 0" and rnz: "round_float64 x \<noteq> 0" by simp_all
  define e where "e = exponent x"
  define m where "m = round_half_even (x / spacing x)"
  have ge: "- 1022 \<le> e" by (simp add: e_def exponent_def)
  have q: "spacing x = 2 powi (e - 52)" by (simp add: spacing_def e_def)
  have r: "round_float64 x = of_int m * 2 powi (e - 52)"
    using nz by (simp add: round_float64_def m_def q)
  have next_binade: "(2::real) powi (e + 1) = 2 ^ 53 * 2 powi (e - 52)"
  proof -
    have "e + 1 = 53 + (e - 52)" by simp
    then have "(2::real) powi (e + 1) = 2 powi (53 + (e - 52))" by (simp only:)
    also have "\<dots> = 2 powi 53 * 2 powi (e - 52)" by (rule power_int_add) simp
    finally show ?thesis by simp
  qed
  have "\<bar>x\<bar> < 2 ^ 53 * 2 powi (e - 52)"
    using abs_less_next_binade [OF nz] by (simp only: e_def [symmetric] next_binade)
  then have "\<bar>x\<bar> / 2 powi (e - 52) < 2 ^ 53"
    by (simp add: pos_divide_less_eq)
  then have "\<bar>x / spacing x\<bar> < of_int (2 ^ 53)"
    by (simp add: q)
  from round_half_even_bound [OF this] have mb: "\<bar>m\<bar> \<le> 2 ^ 53"
    by (simp only: m_def)
  have ar: "\<bar>round_float64 x\<bar> = of_int \<bar>m\<bar> * 2 powi (e - 52)"
    by (simp add: r abs_mult)
  show ?thesis
  proof (cases "\<bar>m\<bar> = 2 ^ 53")
    case True
    then have a: "\<bar>round_float64 x\<bar> = 2 powi (e + 1)"
      by (simp add: ar next_binade)
    have "(2::real) powi (e + 1) < 2 powi (e + 1 + 1)"
      by (rule power_int_strict_increasing) simp_all
    with a have "exponent (round_float64 x) = e + 1"
      using ge by (intro exponent_eqI) simp_all
    then have le: "exponent (round_float64 x) \<le> e + 1" by simp
    have step: "2 * 2 powi (e - 52) = (2::real) powi (e + 1 - 52)"
    proof -
      have "e + 1 - 52 = 1 + (e - 52)" by simp
      then have "(2::real) powi (e + 1 - 52) = 2 powi (1 + (e - 52))" by (simp only:)
      also have "\<dots> = 2 powi 1 * 2 powi (e - 52)" by (rule power_int_add) simp
      finally show ?thesis by (simp only: power_int_1_right)
    qed
    define h where "h = m div 2"
    from True have "m = 2 ^ 53 \<or> m = - (2 ^ 53)" by linarith
    then have "m = h * 2" by (auto simp add: h_def)
    then have "(of_int m :: real) = of_int h * 2" by simp
    with r have "round_float64 x = of_int h * 2 * 2 powi (e - 52)"
      by (simp only:)
    then have "round_float64 x = of_int h * 2 powi (e + 1 - 52)"
      by (simp only: mult.assoc step)
    from round_float64_multiple [OF this le] show ?thesis .
  next
    case False
    with mb have "\<bar>m\<bar> < 2 ^ 53" by simp
    then have "(of_int \<bar>m\<bar> :: real) < 2 ^ 53"
      by (metis of_int_less_iff of_int_numeral of_int_power)
    then have "\<bar>round_float64 x\<bar> < 2 ^ 53 * 2 powi (e - 52)"
      by (simp add: ar)
    then have "\<bar>round_float64 x\<bar> < 2 powi (e + 1)"
      by (simp only: next_binade)
    from exponent_le [OF rnz this ge] have "exponent (round_float64 x) \<le> e" .
    from round_float64_multiple [OF r this] show ?thesis .
  qed
qed

lemma to_float64_representable:
  assumes "to_float64 x = Finite r"
  shows "representable r"
proof -
  from assms have "r = round_float64 x" "\<not> 2 ^ 1024 \<le> \<bar>round_float64 x\<bar>"
    by (simp_all add: to_float64_def Let_def split: if_splits)
  then show ?thesis
    by (simp add: representable_def round_float64_idem)
qed

text \<open>When an operation returns a finite number or an infinity.\<close>

lemma to_float64_FiniteD:
  assumes "to_float64 x = Finite r"
  shows "r = round_float64 x"
  using assms by (simp add: to_float64_def Let_def split: if_splits)

lemma to_float64_bounded:
  assumes "\<bar>x\<bar> \<le> 2"
  shows "to_float64 x = Finite (round_float64 x)"
proof -
  have "unit_roundoff * \<bar>x\<bar> \<le> 1 / 8 * \<bar>x\<bar>"
    by (rule mult_right_mono [OF unit_roundoff_bounds(2)]) simp
  moreover have "half_least_subnormal \<le> 1"
    using unit_roundoff_bounds(2,3) by linarith
  ultimately have "\<bar>round_float64 x\<bar> < 4"
    using round_float64_general_error [of x] assms by linarith
  moreover have "(4::real) < 2 ^ 1024" by simp
  ultimately have "\<not> 2 ^ 1024 \<le> \<bar>round_float64 x\<bar>" by linarith
  then show ?thesis by (simp add: to_float64_def Let_def)
qed

lemma positive_sum_finite:
  assumes "0 < x" and "to_float64 x \<noteq> PosInf"
  shows "to_float64 x = Finite (round_float64 x)"
  using assms by (simp add: to_float64_def Let_def split: if_splits)


text \<open>
  The error analysis of a normalised row over the reals: \<open>s\<close> is the rounded sum
  \<open>t\<close>, and \<open>p\<close> the rounded quotient \<open>a / s\<close>.
\<close>

lemma quotient_bounds:
  fixes a t s u :: real
  assumes a: "0 \<le> a" "a \<le> t" and t: "0 < t" and s: "\<bar>s - t\<bar> \<le> u * t"
    and u: "0 < u" "u \<le> 1 / 8"
  shows "0 < s" "0 \<le> a / s" "a / s \<le> 8 / 7" "\<bar>a / s - a / t\<bar> \<le> u * (a / s)"
proof -
  have "u * t \<le> t / 8"
    using u t by (simp add: mult_right_mono less_imp_le)
  with s have lo: "7 / 8 * t \<le> s" by linarith
  with t show pos: "0 < s" by linarith
  then show nonneg: "0 \<le> a / s" using a by simp
  have "a \<le> 8 / 7 * s" using a lo by linarith
  then show "a / s \<le> 8 / 7"
    using pos by (simp add: pos_divide_le_eq)
  have "a / s - a / t = (a / s) * ((t - s) / t)"
    using pos t by (simp add: field_simps)
  then have "\<bar>a / s - a / t\<bar> = \<bar>a / s\<bar> * \<bar>(t - s) / t\<bar>"
    by (simp only: abs_mult)
  also have "\<bar>a / s\<bar> = a / s"
    using nonneg by (rule abs_of_nonneg)
  also have "\<bar>(t - s) / t\<bar> = \<bar>t - s\<bar> / t"
    using t by (simp only: abs_divide abs_of_pos)
  also have "(a / s) * (\<bar>t - s\<bar> / t) \<le> (a / s) * u"
  proof (rule mult_left_mono [OF _ nonneg])
    have "\<bar>t - s\<bar> \<le> u * t" using s by (simp only: abs_minus_commute)
    then show "\<bar>t - s\<bar> / t \<le> u"
      using t by (simp add: pos_divide_le_eq)
  qed
  finally show "\<bar>a / s - a / t\<bar> \<le> u * (a / s)"
    by (simp add: mult.commute)
qed

lemma normalised_value_error:
  fixes a t s p u h :: real
  assumes a: "0 \<le> a" "a \<le> t" and t: "0 < t" and s: "\<bar>s - t\<bar> \<le> u * t"
    and p: "\<bar>p - a / s\<bar> \<le> u * \<bar>a / s\<bar> + h"
    and u: "0 < u" "u \<le> 1 / 8" and h: "h \<le> u / 8"
  shows "\<bar>p - a / t\<bar> \<le> 3 * u"
proof -
  note q = quotient_bounds [OF a t s u]
  have "u * (a / s) \<le> u * (8 / 7)"
    using q(3) u(1) by (intro mult_left_mono) simp_all
  moreover have "\<bar>p - a / s\<bar> \<le> u * (a / s) + h"
    using p by (simp only: abs_of_nonneg [OF q(2)])
  moreover note q(4) h
  ultimately show ?thesis by linarith
qed

lemma normalised_sum_error:
  fixes a b s p q u h :: real
  assumes a: "0 \<le> a" and b: "0 \<le> b" and t: "0 < a + b" and s: "\<bar>s - (a + b)\<bar> \<le> u * (a + b)"
    and p: "\<bar>p - a / s\<bar> \<le> u * \<bar>a / s\<bar> + h"
    and q: "\<bar>q - b / s\<bar> \<le> u * \<bar>b / s\<bar> + h"
    and u: "0 < u" "u \<le> 1 / 8" and h: "h \<le> u / 8"
  shows "\<bar>p + q - 1\<bar> \<le> 3 * u"
proof -
  have t': "0 \<le> a + b" "a + b \<le> a + b" using t by simp_all
  note qt = quotient_bounds [OF t' t s u]
  have pos: "0 < s" by (rule qt(1))
  have na: "0 \<le> a / s" and nb: "0 \<le> b / s" using a b pos by simp_all
  have split: "a / s + b / s = (a + b) / s" by (simp add: add_divide_distrib)
  have one: "(a + b) / (a + b) = 1" using t by simp
  from qt(4) have d: "\<bar>(a + b) / s - 1\<bar> \<le> u * ((a + b) / s)" by (simp only: one)
  have m: "u * ((a + b) / s) \<le> u * (8 / 7)"
    using qt(3) u(1) by (intro mult_left_mono) simp_all
  have pa: "\<bar>p - a / s\<bar> \<le> u * (a / s) + h"
    using p by (simp only: abs_of_nonneg [OF na])
  have qb: "\<bar>q - b / s\<bar> \<le> u * (b / s) + h"
    using q by (simp only: abs_of_nonneg [OF nb])
  have "u * (a / s) + u * (b / s) = u * ((a + b) / s)"
    by (simp add: split [symmetric] distrib_left)
  with pa qb d m h split show ?thesis by linarith
qed


section \<open>The normalisation and the call of the sWeights routine\<close>

lemma length_normalise_probs: "length (normalise_probs probs) = length probs"
  by (simp add: normalise_probs_def div_axis0_def sum_axis1_def)

lemma sum_axis1_nth:
  "i < length probs \<Longrightarrow>
   sum_axis1 probs ! i = fadd (nan_to_zero (sig (probs ! i))) (nan_to_zero (bck (probs ! i)))"
  by (simp add: sum_axis1_def)

lemma normalise_probs_nth:
  "i < length probs \<Longrightarrow> normalise_probs probs ! i = div_row (probs ! i) (sum_axis1 probs ! i)"
  by (simp add: normalise_probs_def div_axis0_def sum_axis1_def)

lemma finite_row_sum:
  assumes "i < length probs" and "probs ! i = \<lparr>sig = Finite a, bck = Finite b\<rparr>"
  shows "sum_axis1 probs ! i = to_float64 (a + b)"
  using assms by (simp add: sum_axis1_nth)





text \<open>
  One row of non-negative floating-point numbers whose sum is positive and does
  not overflow: the two quotients are finite, each within three unit roundoffs of
  the exact normalised value, and so is their sum of one.
\<close>

lemma normalise_row:
  assumes ga: "\<exists>k. a = of_int k * 2 powi (- 1074)" and gb: "\<exists>k. b = of_int k * 2 powi (- 1074)"
    and a: "0 \<le> a" and b: "0 \<le> b" and t: "0 < a + b"
    and s: "to_float64 (a + b) = Finite s"
  shows "\<exists>p q. div_row \<lparr>sig = Finite a, bck = Finite b\<rparr> (Finite s) = \<lparr>sig = Finite p, bck = Finite q\<rparr>
           \<and> representable p \<and> representable q
           \<and> \<bar>p - a / (a + b)\<bar> \<le> 3 * unit_roundoff
           \<and> \<bar>q - b / (a + b)\<bar> \<le> 3 * unit_roundoff
           \<and> \<bar>p + q - 1\<bar> \<le> 3 * unit_roundoff"
proof -
  note u = unit_roundoff_bounds
  from s have s': "s = round_float64 (a + b)" by (rule to_float64_FiniteD)
  have "\<bar>s - (a + b)\<bar> \<le> unit_roundoff * \<bar>a + b\<bar>"
    unfolding s' by (rule round_float64_sum_error [OF ga gb])
  with t have se: "\<bar>s - (a + b)\<bar> \<le> unit_roundoff * (a + b)" by simp
  have le: "a \<le> a + b" "b \<le> a + b" using a b by simp_all
  note qa = quotient_bounds [OF a le(1) t se u(1,2)]
  note qb = quotient_bounds [OF b le(2) t se u(1,2)]
  define p where "p = round_float64 (a / s)"
  define q where "q = round_float64 (b / s)"
  have pe: "\<bar>p - a / s\<bar> \<le> unit_roundoff * \<bar>a / s\<bar> + half_least_subnormal"
    unfolding p_def by (rule round_float64_general_error)
  have qe: "\<bar>q - b / s\<bar> \<le> unit_roundoff * \<bar>b / s\<bar> + half_least_subnormal"
    unfolding q_def by (rule round_float64_general_error)
  have "\<bar>a / s\<bar> = a / s" "\<bar>b / s\<bar> = b / s"
    by (rule abs_of_nonneg [OF qa(2)], rule abs_of_nonneg [OF qb(2)])
  with qa(3) qb(3) have small: "\<bar>a / s\<bar> \<le> 2" "\<bar>b / s\<bar> \<le> 2"
    by linarith+
  have fin: "to_float64 (a / s) = Finite p" "to_float64 (b / s) = Finite q"
    unfolding p_def q_def
    by (rule to_float64_bounded [OF small(1)], rule to_float64_bounded [OF small(2)])
  have nz: "s \<noteq> 0" using qa(1) by simp
  have "div_row \<lparr>sig = Finite a, bck = Finite b\<rparr> (Finite s) = \<lparr>sig = Finite p, bck = Finite q\<rparr>"
    using nz fin by (simp add: div_row_def)
  moreover have "representable p" "representable q"
    by (rule to_float64_representable [OF fin(1)], rule to_float64_representable [OF fin(2)])
  moreover have "\<bar>p - a / (a + b)\<bar> \<le> 3 * unit_roundoff"
    by (rule normalised_value_error [OF a le(1) t se pe u(1,2,3)])
  moreover have "\<bar>q - b / (a + b)\<bar> \<le> 3 * unit_roundoff"
    by (rule normalised_value_error [OF b le(2) t se qe u(1,2,3)])
  moreover have "\<bar>p + q - 1\<bar> \<le> 3 * unit_roundoff"
    by (rule normalised_sum_error [OF a b t se pe qe u(1,2,3)])
  ultimately show ?thesis by blast
qed


subsection \<open>Evaluation on sample frames\<close>

text \<open>
  The floating-point numbers nearest to \<open>0.1\<close> and \<open>0.3\<close> are
  \<open>3602879701896397 / 2^55\<close> and \<open>5404319552844595 / 2^54\<close>.
\<close>

lemma sum_axis1_Nil: "sum_axis1 [] = []"
  by (simp add: sum_axis1_def)

lemma sum_axis1_Cons:
  assumes "fadd (nan_to_zero a) (nan_to_zero b) = s"
  shows "sum_axis1 (\<lparr>sig = a, bck = b\<rparr> # probs) = s # sum_axis1 probs"
  using assms by (simp add: sum_axis1_def)

lemma normalise_probs_Nil: "normalise_probs [] = []"
  by (simp add: normalise_probs_def div_axis0_def sum_axis1_def)

lemma normalise_probs_Cons:
  assumes "fadd (nan_to_zero a) (nan_to_zero b) = s" and "fdiv a s = x" and "fdiv b s = y"
  shows "normalise_probs (\<lparr>sig = a, bck = b\<rparr> # probs) = \<lparr>sig = x, bck = y\<rparr> # normalise_probs probs"
  using assms by (simp add: normalise_probs_def div_axis0_def sum_axis1_def div_row_def)


lemma fadd_eval:
  assumes "to_float64 (a + b) = s"
  shows "fadd (nan_to_zero (Finite a)) (nan_to_zero (Finite b)) = s"
  using assms by simp

lemma fdiv_eval:
  assumes "s \<noteq> 0" and "to_float64 (a / s) = x"
  shows "fdiv (Finite a) (Finite s) = x"
  using assms by simp


lemma representable_one_tenth: "representable (3602879701896397 / 2 ^ 55)"
  by (rule representableI [where e = "- 4" and k = 7205759403792794])
     (simp_all add: power_int_minus)

lemma representable_three_tenths: "representable (5404319552844595 / 2 ^ 54)"
  by (rule representableI [where e = "- 2" and k = 5404319552844595])
     (simp_all add: power_int_minus)

lemma sum_one_three_tenths:
  "to_float64 (3602879701896397 / 2 ^ 55 + 5404319552844595 / 2 ^ 54)
     = Finite (7205759403792794 / 2 ^ 54)"
  by (rule to_float64_eval [where e = "- 2"])
     (simp_all add: power_int_minus round_half_even_def Let_def)

lemma quotient_one_tenth:
  "to_float64 (3602879701896397 / 2 ^ 55 / (7205759403792794 / 2 ^ 54)) = Finite (1 / 4)"
  by (rule to_float64_eval [where e = "- 2"])
     (simp_all add: power_int_minus round_half_even_def Let_def)

lemma quotient_three_tenths:
  "to_float64 (5404319552844595 / 2 ^ 54 / (7205759403792794 / 2 ^ 54))
     = Finite (6755399441055743 / 2 ^ 53)"
  by (rule to_float64_eval [where e = "- 1"])
     (simp_all add: power_int_minus round_half_even_def Let_def)

lemma normalise_one_three_tenths:
  "normalise_probs (\<lparr>sig = Finite (3602879701896397 / 2 ^ 55), bck = Finite (5404319552844595 / 2 ^ 54)\<rparr> # probs)
     = \<lparr>sig = Finite (1 / 4), bck = Finite (6755399441055743 / 2 ^ 53)\<rparr> # normalise_probs probs"
proof -
  have nz: "(7205759403792794 / 2 ^ 54 :: real) \<noteq> 0" by simp
  show ?thesis
    by (rule normalise_probs_Cons [OF fadd_eval [OF sum_one_three_tenths]
          fdiv_eval [OF nz quotient_one_tenth] fdiv_eval [OF nz quotient_three_tenths]])
qed








lemma sum_three_one: "to_float64 (3 + 1) = Finite 4"
  by (rule to_float64_eval [where e = "2"])
     (simp_all add: power_int_minus round_half_even_def Let_def)

lemma quotient_three_four: "to_float64 (3 / 4) = Finite (3 / 4)"
  by (rule to_float64_eval [where e = "- 1"])
     (simp_all add: power_int_minus round_half_even_def Let_def)

lemma quotient_one_four: "to_float64 (1 / 4) = Finite (1 / 4)"
  by (rule to_float64_eval [where e = "- 2"])
     (simp_all add: power_int_minus round_half_even_def Let_def)

lemma sum_one_one: "to_float64 (1 + 1) = Finite 2"
  by (rule to_float64_eval [where e = "1"])
     (simp_all add: power_int_minus round_half_even_def Let_def)

lemma quotient_one_two: "to_float64 (1 / 2) = Finite (1 / 2)"
  by (rule to_float64_eval [where e = "- 1"])
     (simp_all add: power_int_minus round_half_even_def Let_def)

lemma normalise_three_one:
  "normalise_probs (\<lparr>sig = Finite 3, bck = Finite 1\<rparr> # probs)
     = \<lparr>sig = Finite (3 / 4), bck = Finite (1 / 4)\<rparr> # normalise_probs probs"
proof -
  have nz: "(4::real) \<noteq> 0" by simp
  show ?thesis
    by (rule normalise_probs_Cons [OF fadd_eval [OF sum_three_one]
          fdiv_eval [OF nz quotient_three_four] fdiv_eval [OF nz quotient_one_four]])
qed

lemma normalise_one_one:
  "normalise_probs (\<lparr>sig = Finite 1, bck = Finite 1\<rparr> # probs)
     = \<lparr>sig = Finite (1 / 2), bck = Finite (1 / 2)\<rparr> # normalise_probs probs"
proof -
  have nz: "(2::real) \<noteq> 0" by simp
  show ?thesis
    by (rule normalise_probs_Cons [OF fadd_eval [OF sum_one_one]
          fdiv_eval [OF nz quotient_one_two] fdiv_eval [OF nz quotient_one_two]])
qed



lemma overflow_sum: "to_float64 (2 ^ 1023 + 2 ^ 1023) = PosInf"
proof -
  have "round_float64 (2 ^ 1023 + 2 ^ 1023) = 2 ^ 1024"
    by (subst round_float64_eval [where e = "1024"])
       (simp_all add: power_int_minus round_half_even_def Let_def)
  then show ?thesis by (simp add: to_float64_def)
qed

lemma representable_largest_power: "representable (2 ^ 1023)"
  by (rule representableI [where e = "1023" and k = "2 ^ 52"])
     (simp_all add: power_int_minus)

lemma normalise_overflow:
  "normalise_probs [\<lparr>sig = Finite (2 ^ 1023), bck = Finite (2 ^ 1023)\<rparr>]
     = [\<lparr>sig = Finite 0, bck = Finite 0\<rparr>]"
  by (simp only: normalise_probs_Nil
      normalise_probs_Cons [OF fadd_eval [OF overflow_sum] fdiv.simps(6) fdiv.simps(6)])

subsection \<open>The sum of the normalised probabilities of an event\<close>

text \<open>
  Claim C9, as stated, fails in the floating-point arithmetic of the cell.  For the
  row of the density values \<open>0.1\<close> and \<open>0.3\<close>, whose sum is not zero, the
  normalised probabilities are \<open>0.25\<close> and \<open>0.7499999999999999\<close>: their sum is
  \<open>1 - 2^-53\<close>, as a real number and as a floating-point sum.  For the row of
  two values \<open>2^1023\<close> the sum overflows to infinity and both normalised
  probabilities are zero.
\<close>

theorem normalised_row_sum_counterexample:
  "to_float64 (1 / 10) = Finite (3602879701896397 / 2 ^ 55)
   \<and> to_float64 (3 / 10) = Finite (5404319552844595 / 2 ^ 54)
   \<and> sum_axis1 [\<lparr>sig = Finite (3602879701896397 / 2 ^ 55), bck = Finite (5404319552844595 / 2 ^ 54)\<rparr>]
       = [Finite (7205759403792794 / 2 ^ 54)]
   \<and> normalise_probs [\<lparr>sig = Finite (3602879701896397 / 2 ^ 55), bck = Finite (5404319552844595 / 2 ^ 54)\<rparr>]
       = [\<lparr>sig = Finite (1 / 4), bck = Finite (6755399441055743 / 2 ^ 53)\<rparr>]
   \<and> 1 / 4 + 6755399441055743 / 2 ^ 53 = (1 - 1 / 2 ^ 53 :: real)
   \<and> fadd (Finite (1 / 4)) (Finite (6755399441055743 / 2 ^ 53)) = Finite (1 - 1 / 2 ^ 53)
   \<and> fadd (Finite (1 / 4)) (Finite (6755399441055743 / 2 ^ 53)) \<noteq> Finite 1
   \<and> representable (2 ^ 1023)
   \<and> sum_axis1 [\<lparr>sig = Finite (2 ^ 1023), bck = Finite (2 ^ 1023)\<rparr>] = [PosInf]
   \<and> normalise_probs [\<lparr>sig = Finite (2 ^ 1023), bck = Finite (2 ^ 1023)\<rparr>]
       = [\<lparr>sig = Finite 0, bck = Finite 0\<rparr>]"
proof -
  have a: "to_float64 (1 / 10) = Finite (3602879701896397 / 2 ^ 55)"
    by (rule to_float64_eval [where e = "- 4"])
       (simp_all add: power_int_minus round_half_even_def Let_def)
  have b: "to_float64 (3 / 10) = Finite (5404319552844595 / 2 ^ 54)"
    by (rule to_float64_eval [where e = "- 2"])
       (simp_all add: power_int_minus round_half_even_def Let_def)
  have s: "sum_axis1 [\<lparr>sig = Finite (3602879701896397 / 2 ^ 55), bck = Finite (5404319552844595 / 2 ^ 54)\<rparr>]
       = [Finite (7205759403792794 / 2 ^ 54)]"
    by (simp only: sum_axis1_Cons [OF fadd_eval [OF sum_one_three_tenths]] sum_axis1_Nil)
  have n: "normalise_probs [\<lparr>sig = Finite (3602879701896397 / 2 ^ 55), bck = Finite (5404319552844595 / 2 ^ 54)\<rparr>]
       = [\<lparr>sig = Finite (1 / 4), bck = Finite (6755399441055743 / 2 ^ 53)\<rparr>]"
    by (simp only: normalise_one_three_tenths normalise_probs_Nil)
  have r: "1 / 4 + 6755399441055743 / 2 ^ 53 = (1 - 1 / 2 ^ 53 :: real)"
    by simp
  have f: "fadd (Finite (1 / 4)) (Finite (6755399441055743 / 2 ^ 53)) = Finite (1 - 1 / 2 ^ 53)"
    unfolding fadd.simps
    by (rule to_float64_eval [where e = "- 1"])
       (simp_all add: power_int_minus round_half_even_def Let_def)
  have g: "fadd (Finite (1 / 4)) (Finite (6755399441055743 / 2 ^ 53)) \<noteq> Finite 1"
    unfolding f by simp
  have t: "sum_axis1 [\<lparr>sig = Finite (2 ^ 1023), bck = Finite (2 ^ 1023)\<rparr>] = [PosInf]"
    by (simp only: sum_axis1_Cons [OF fadd_eval [OF overflow_sum]] sum_axis1_Nil)
  from a b s n r f g representable_largest_power t normalise_overflow show ?thesis
    by (intro conjI)
qed

text \<open>
  Claim C9, amended.  After the normalisation cell, every event whose two density
  values are non-negative floating-point numbers with a nonzero sum that does not
  overflow has two finite per-class probabilities, floating-point numbers whose
  sum differs from one by at most three unit roundoffs, \<open>3 * 2^-53\<close>; the frame
  handed to \<open>compute_sweights\<close> is exactly this normalised frame.
\<close>

theorem normalised_rows_sum_to_one_up_to_rounding:
  assumes "i < length probs"
    and "probs ! i = \<lparr>sig = Finite a, bck = Finite b\<rparr>"
    and "representable a" and "representable b"
    and "0 \<le> a" and "0 \<le> b" and "a + b \<noteq> 0"
    and "sum_axis1 probs ! i \<noteq> PosInf"
  shows "sweights_of_densities compute_sweights probs = compute_sweights (normalise_probs probs)
         \<and> length (normalise_probs probs) = length probs
         \<and> (\<exists>p q. normalise_probs probs ! i = \<lparr>sig = Finite p, bck = Finite q\<rparr>
                \<and> representable p \<and> representable q
                \<and> \<bar>p + q - 1\<bar> \<le> 3 * unit_roundoff)"
proof (intro conjI)
  show "sweights_of_densities compute_sweights probs = compute_sweights (normalise_probs probs)"
    by (simp add: sweights_of_densities_def)
  show "length (normalise_probs probs) = length probs"
    by (rule length_normalise_probs)
  from assms(5-7) have t: "0 < a + b" by linarith
  have sum: "sum_axis1 probs ! i = to_float64 (a + b)"
    by (rule finite_row_sum [OF assms(1,2)])
  with assms(8) have "to_float64 (a + b) \<noteq> PosInf" by simp
  from positive_sum_finite [OF t this]
  have s: "to_float64 (a + b) = Finite (round_float64 (a + b))" .
  from normalise_row [OF representable_grid_point [OF assms(3)]
      representable_grid_point [OF assms(4)] assms(5,6) t s]
  obtain p q where
    "div_row \<lparr>sig = Finite a, bck = Finite b\<rparr> (Finite (round_float64 (a + b)))
       = \<lparr>sig = Finite p, bck = Finite q\<rparr>"
    and "representable p" "representable q"
    and "\<bar>p + q - 1\<bar> \<le> 3 * unit_roundoff"
    by blast
  then have "normalise_probs probs ! i = \<lparr>sig = Finite p, bck = Finite q\<rparr>
      \<and> representable p \<and> representable q
      \<and> \<bar>p + q - 1\<bar> \<le> 3 * unit_roundoff"
    by (simp add: normalise_probs_nth [OF assms(1)] sum s assms(2))
  then show "\<exists>p q. normalise_probs probs ! i = \<lparr>sig = Finite p, bck = Finite q\<rparr>
      \<and> representable p \<and> representable q
      \<and> \<bar>p + q - 1\<bar> \<le> 3 * unit_roundoff"
    by blast
qed

theorem normalised_rows_sum_to_one_up_to_rounding_witness:
  "representable (3602879701896397 / 2 ^ 55) \<and> representable (5404319552844595 / 2 ^ 54)
   \<and> sum_axis1 [\<lparr>sig = Finite (3602879701896397 / 2 ^ 55), bck = Finite (5404319552844595 / 2 ^ 54)\<rparr>] ! 0
       \<noteq> PosInf
   \<and> normalise_probs [\<lparr>sig = Finite (3602879701896397 / 2 ^ 55), bck = Finite (5404319552844595 / 2 ^ 54)\<rparr>] ! 0
       = \<lparr>sig = Finite (1 / 4), bck = Finite (6755399441055743 / 2 ^ 53)\<rparr>
   \<and> representable (1 / 4) \<and> representable (6755399441055743 / 2 ^ 53)
   \<and> \<bar>1 / 4 + 6755399441055743 / 2 ^ 53 - 1\<bar> \<le> 3 * unit_roundoff"
proof -
  let ?a = "3602879701896397 / 2 ^ 55 :: real"
  let ?b = "5404319552844595 / 2 ^ 54 :: real"
  let ?P = "[\<lparr>sig = Finite ?a, bck = Finite ?b\<rparr>]"
  have i: "0 < length ?P" by simp
  have row: "?P ! 0 = \<lparr>sig = Finite ?a, bck = Finite ?b\<rparr>" by simp
  have nn: "0 \<le> ?a" "0 \<le> ?b" "?a + ?b \<noteq> 0" by simp_all
  have "sum_axis1 ?P = [Finite (7205759403792794 / 2 ^ 54)]"
    by (simp only: sum_axis1_Cons [OF fadd_eval [OF sum_one_three_tenths]] sum_axis1_Nil)
  then have s: "sum_axis1 ?P ! 0 \<noteq> PosInf" by simp
  have n: "normalise_probs ?P ! 0 = \<lparr>sig = Finite (1 / 4), bck = Finite (6755399441055743 / 2 ^ 53)\<rparr>"
    by (simp only: normalise_one_three_tenths normalise_probs_Nil nth_Cons_0)
  from normalised_rows_sum_to_one_up_to_rounding
    [OF i row representable_one_tenth representable_three_tenths nn s, of id]
  obtain p q where "normalise_probs ?P ! 0 = \<lparr>sig = Finite p, bck = Finite q\<rparr>"
    and e: "representable p" "representable q" "\<bar>p + q - 1\<bar> \<le> 3 * unit_roundoff"
    by blast
  with n have "p = 1 / 4" "q = 6755399441055743 / 2 ^ 53" by simp_all
  with e have "representable (1 / 4)" "representable (6755399441055743 / 2 ^ 53)"
    "\<bar>1 / 4 + 6755399441055743 / 2 ^ 53 - 1 :: real\<bar> \<le> 3 * unit_roundoff"
    by (simp_all only:)
  with representable_one_tenth representable_three_tenths s n show ?thesis
    by (intro conjI)
qed

subsection \<open>Rescaling the density values of one event\<close>




subsection \<open>The reconstructed variable\<close>

text \<open>
  Claim C6.  The sWeights are computed from the splotted variable alone: two
  samples with the same masses get the same result, the same weights where
  weights are returned and the same failure otherwise, whatever their
  reconstructed variables are; this includes the sample whose reconstructed
  variable is the mass itself (the histogram of lines 911-915).
\<close>

theorem sweights_ignore_reconstructed_variable:
  assumes "map mass evs' = map mass evs"
  shows "sweights_of_events compute_sweights sig_pdf bck_pdf evs'
           = sweights_of_events compute_sweights sig_pdf bck_pdf evs
         \<and> sweights_of_events compute_sweights sig_pdf bck_pdf (map (\<lambda>e. e\<lparr>p := mass e\<rparr>) evs)
           = sweights_of_events compute_sweights sig_pdf bck_pdf evs
         \<and> (\<forall>w. sweights_of_events compute_sweights sig_pdf bck_pdf evs = Inr w \<longrightarrow>
                sweights_of_events compute_sweights sig_pdf bck_pdf evs' = Inr w)"
proof -
  have e: "map mass (map (\<lambda>e. e\<lparr>p := mass e\<rparr>) evs) = map mass evs"
    by (induction evs) simp_all
  show ?thesis
    unfolding sweights_of_events_def e assms by simp
qed

theorem sweights_ignore_reconstructed_variable_witness:
  "map mass [\<lparr>mass = Finite 3, p = Finite 5\<rparr>, \<lparr>mass = Finite 1, p = Finite 3\<rparr>]
     = map mass [\<lparr>mass = Finite 3, p = Finite 0\<rparr>, \<lparr>mass = Finite 1, p = Finite 7\<rparr>]
   \<and> map p [\<lparr>mass = Finite 3, p = Finite 5\<rparr>, \<lparr>mass = Finite 1, p = Finite 3\<rparr>]
     \<noteq> map p [\<lparr>mass = Finite 3, p = Finite 0\<rparr>, \<lparr>mass = Finite 1, p = Finite 7\<rparr>]
   \<and> sweights_of_events Inr (\<lambda>m. m) (\<lambda>m. Finite 1)
        [\<lparr>mass = Finite 3, p = Finite 5\<rparr>, \<lparr>mass = Finite 1, p = Finite 3\<rparr>]
       = (Inr [\<lparr>sig = Finite (3 / 4), bck = Finite (1 / 4)\<rparr>, \<lparr>sig = Finite (1 / 2), bck = Finite (1 / 2)\<rparr>]
          :: unit + float_row list)
   \<and> sweights_of_events Inr (\<lambda>m. m) (\<lambda>m. Finite 1)
        [\<lparr>mass = Finite 3, p = Finite 0\<rparr>, \<lparr>mass = Finite 1, p = Finite 7\<rparr>]
       = (Inr [\<lparr>sig = Finite (3 / 4), bck = Finite (1 / 4)\<rparr>, \<lparr>sig = Finite (1 / 2), bck = Finite (1 / 2)\<rparr>]
          :: unit + float_row list)"
proof -
  let ?a = "[\<lparr>mass = Finite 3, p = Finite 5\<rparr>, \<lparr>mass = Finite 1, p = Finite 3\<rparr>]"
  let ?b = "[\<lparr>mass = Finite 3, p = Finite 0\<rparr>, \<lparr>mass = Finite 1, p = Finite 7\<rparr>]"
  let ?cs = "Inr :: float_row list \<Rightarrow> unit + float_row list"
  have m: "map mass ?a = map mass ?b" by simp
  have d: "map p ?a \<noteq> map p ?b" by simp
  have f: "density_frame (\<lambda>m. m) (\<lambda>m. Finite 1) (map mass ?b)
      = [\<lparr>sig = Finite 3, bck = Finite 1\<rparr>, \<lparr>sig = Finite 1, bck = Finite 1\<rparr>]"
    by (simp add: density_frame_def)
  have v: "sweights_of_events ?cs (\<lambda>m. m) (\<lambda>m. Finite 1) ?b
       = Inr [\<lparr>sig = Finite (3 / 4), bck = Finite (1 / 4)\<rparr>, \<lparr>sig = Finite (1 / 2), bck = Finite (1 / 2)\<rparr>]"
    by (simp only: sweights_of_events_def sweights_of_densities_def f
        normalise_three_one normalise_one_one normalise_probs_Nil)
  from sweights_ignore_reconstructed_variable [OF m, of ?cs "\<lambda>m. m" "\<lambda>m. Finite 1"]
  have "sweights_of_events ?cs (\<lambda>m. m) (\<lambda>m. Finite 1) ?a
      = sweights_of_events ?cs (\<lambda>m. m) (\<lambda>m. Finite 1) ?b"
    by (rule conjunct1)
  with v have "sweights_of_events ?cs (\<lambda>m. m) (\<lambda>m. Finite 1) ?a
       = Inr [\<lparr>sig = Finite (3 / 4), bck = Finite (1 / 4)\<rparr>, \<lparr>sig = Finite (1 / 2), bck = Finite (1 / 2)\<rparr>]"
    by (rule trans [rotated])
  with m d v show ?thesis by (intro conjI)
qed

section \<open>The matrix of second moments and the optimisation problem\<close>

lemma V_sym: "V n j probs = V j n probs"
  by (simp add: V_def mult.commute)

lemma sum_sq_zero:
  "(\<Sum>r\<leftarrow>probs. (f r)\<^sup>2) = 0 \<longleftrightarrow> (\<forall>r \<in> set probs. f r = (0::real))"
proof -
  have "sum_list (map (\<lambda>r. (f r)\<^sup>2) probs) = 0 \<longleftrightarrow> (\<forall>x \<in> set (map (\<lambda>r. (f r)\<^sup>2) probs). x = 0)"
    by (rule sum_list_nonneg_eq_0_iff) auto
  then show ?thesis by simp
qed

lemma quadratic_form:
  "x * x * V Sig Sig probs + 2 * x * y * V Sig Bkg probs + y * y * V Bkg Bkg probs
     = (\<Sum>r\<leftarrow>probs. (x * sig r + y * bck r)\<^sup>2)"
  unfolding V_def by (induction probs) (simp_all add: algebra_simps power2_eq_square)

lemma V_combination:
  "c1 * V n Sig probs + c2 * V n Bkg probs = (\<Sum>r\<leftarrow>probs. dens n r * (c1 * sig r + c2 * bck r))"
  unfolding V_def by (induction probs) (simp_all add: algebra_simps)

lemma dependent_det_zero:
  assumes rel: "\<forall>r \<in> set probs. c1 * sig r + c2 * bck r = 0" and nz: "c1 \<noteq> 0 \<or> c2 \<noteq> 0"
  shows "det_V probs = 0"
proof -
  have z: "(\<Sum>r\<leftarrow>probs. dens n r * (c1 * sig r + c2 * bck r)) = 0" for n
    using rel by (induction probs) simp_all
  have e1: "c1 * V Sig Sig probs + c2 * V Sig Bkg probs = 0"
    using z [of Sig] by (simp add: V_combination)
  have e2: "c1 * V Bkg Sig probs + c2 * V Bkg Bkg probs = 0"
    using z [of Bkg] by (simp add: V_combination)
  have s: "V Bkg Sig probs = V Sig Bkg probs" by (rule V_sym)
  have "c1 * det_V probs = V Bkg Bkg probs * (c1 * V Sig Sig probs + c2 * V Sig Bkg probs)
          - V Sig Bkg probs * (c1 * V Bkg Sig probs + c2 * V Bkg Bkg probs)"
    by (simp add: det_V_def s algebra_simps)
  then have a: "c1 * det_V probs = 0" by (simp add: e1 e2)
  have "c2 * det_V probs = V Sig Sig probs * (c1 * V Bkg Sig probs + c2 * V Bkg Bkg probs)
          - V Bkg Sig probs * (c1 * V Sig Sig probs + c2 * V Sig Bkg probs)"
    by (simp add: det_V_def s algebra_simps)
  then have b: "c2 * det_V probs = 0" by (simp add: e1 e2)
  from a b nz show ?thesis by auto
qed

lemma det_zero_dependent:
  assumes "det_V probs = 0"
  shows "\<exists>c1 c2. (\<forall>r \<in> set probs. c1 * sig r + c2 * bck r = 0) \<and> (c1 \<noteq> 0 \<or> c2 \<noteq> 0)"
proof (cases "V Bkg Bkg probs = 0")
  case True
  then have "(\<Sum>r\<leftarrow>probs. (bck r)\<^sup>2) = 0"
    by (simp add: V_def power2_eq_square)
  then have "\<forall>r \<in> set probs. bck r = 0"
    by (simp add: sum_sq_zero)
  then have "(\<forall>r \<in> set probs. 0 * sig r + 1 * bck r = 0) \<and> ((0::real) \<noteq> 0 \<or> (1::real) \<noteq> 0)"
    by simp
  then show ?thesis by blast
next
  case False
  define c where "c = V Sig Bkg probs / V Bkg Bkg probs"
  have s: "V Bkg Sig probs = V Sig Bkg probs" by (rule V_sym)
  have cV: "c * V Bkg Bkg probs = V Sig Bkg probs"
    using False by (simp add: c_def)
  have "V Bkg Bkg probs * (1 * 1 * V Sig Sig probs + 2 * 1 * (- c) * V Sig Bkg probs + (- c) * (- c) * V Bkg Bkg probs)
        = V Bkg Bkg probs * V Sig Sig probs - 2 * (c * V Bkg Bkg probs) * V Sig Bkg probs
          + (c * V Bkg Bkg probs) * (c * V Bkg Bkg probs)"
    by (simp add: algebra_simps)
  also have "\<dots> = det_V probs"
    unfolding cV by (simp add: det_V_def s algebra_simps)
  finally have "1 * 1 * V Sig Sig probs + 2 * 1 * (- c) * V Sig Bkg probs + (- c) * (- c) * V Bkg Bkg probs = 0"
    using assms False by simp
  then have "(\<Sum>r\<leftarrow>probs. (1 * sig r + (- c) * bck r)\<^sup>2) = 0"
    by (simp only: quadratic_form)
  then have "\<forall>r \<in> set probs. 1 * sig r + (- c) * bck r = 0"
    by (simp only: sum_sq_zero)
  then have "(\<forall>r \<in> set probs. 1 * sig r + (- c) * bck r = 0) \<and> ((1::real) \<noteq> 0 \<or> - c \<noteq> 0)"
    by simp
  then show ?thesis by blast
qed

lemma det_nonzero_iff_independent: "det_V probs \<noteq> 0 \<longleftrightarrow> linearly_independent probs"
proof
  assume d: "det_V probs \<noteq> 0"
  show "linearly_independent probs"
    unfolding linearly_independent_def
  proof (intro allI impI)
    fix c1 c2
    assume "\<forall>r \<in> set probs. c1 * sig r + c2 * bck r = 0"
    with d dependent_det_zero [of probs c1 c2] show "c1 = 0 \<and> c2 = 0" by blast
  qed
next
  assume li: "linearly_independent probs"
  show "det_V probs \<noteq> 0"
  proof
    assume "det_V probs = 0"
    from det_zero_dependent [OF this] obtain c1 c2
      where "\<forall>r \<in> set probs. c1 * sig r + c2 * bck r = 0" and "c1 \<noteq> 0 \<or> c2 \<noteq> 0" by blast
    with li show False unfolding linearly_independent_def by blast
  qed
qed

lemma invertible_iff_det: "invertible_V probs \<longleftrightarrow> det_V probs \<noteq> 0"
proof
  assume "invertible_V probs"
  then obtain w11 w12 w21 w22 where
    h: "V Bkg Bkg probs * w11 + V Bkg Sig probs * w21 = 1"
       "V Bkg Bkg probs * w12 + V Bkg Sig probs * w22 = 0"
       "V Sig Bkg probs * w11 + V Sig Sig probs * w21 = 0"
       "V Sig Bkg probs * w12 + V Sig Sig probs * w22 = 1"
    unfolding invertible_V_def by blast
  have "det_V probs * (w11 * w22 - w12 * w21)
        = (V Bkg Bkg probs * w11 + V Bkg Sig probs * w21) * (V Sig Bkg probs * w12 + V Sig Sig probs * w22)
          - (V Bkg Bkg probs * w12 + V Bkg Sig probs * w22) * (V Sig Bkg probs * w11 + V Sig Sig probs * w21)"
    by (simp add: det_V_def algebra_simps)
  also have "\<dots> = 1" by (simp add: h)
  finally show "det_V probs \<noteq> 0" by auto
next
  assume d: "det_V probs \<noteq> 0"
  let ?d = "det_V probs"
  have comb: "a * (x / ?d) + b * (y / ?d) = (a * x + b * y) / ?d" for a b x y :: real
    by (simp add: add_divide_distrib)
  have n1: "V Bkg Bkg probs * V Sig Sig probs + V Bkg Sig probs * (- V Sig Bkg probs) = ?d"
    and n2: "V Bkg Bkg probs * (- V Bkg Sig probs) + V Bkg Sig probs * V Bkg Bkg probs = 0"
    and n3: "V Sig Bkg probs * V Sig Sig probs + V Sig Sig probs * (- V Sig Bkg probs) = 0"
    and n4: "V Sig Bkg probs * (- V Bkg Sig probs) + V Sig Sig probs * V Bkg Bkg probs = ?d"
    by (simp_all add: det_V_def algebra_simps)
  have "V Bkg Bkg probs * (V Sig Sig probs / ?d) + V Bkg Sig probs * (- V Sig Bkg probs / ?d) = 1"
       "V Bkg Bkg probs * (- V Bkg Sig probs / ?d) + V Bkg Sig probs * (V Bkg Bkg probs / ?d) = 0"
       "V Sig Bkg probs * (V Sig Sig probs / ?d) + V Sig Sig probs * (- V Sig Bkg probs / ?d) = 0"
       "V Sig Bkg probs * (- V Bkg Sig probs / ?d) + V Sig Sig probs * (V Bkg Bkg probs / ?d) = 1"
    unfolding comb n1 n2 n3 n4 using d by simp_all
  then show "invertible_V probs"
    unfolding invertible_V_def by blast
qed

lemma dot_map:
  assumes "length w = length probs"
  shows "dot w (map f probs) = (\<Sum>i<length probs. w ! i * f (probs ! i))"
proof -
  have "dot w (map f probs) = (\<Sum>i<length probs. (\<lambda>(x, y). x * y) (zip w (map f probs) ! i))"
    using assms by (simp add: dot_def sum_list_sum_nth atLeast0LessThan)
  also have "\<dots> = (\<Sum>i<length probs. w ! i * f (probs ! i))"
    using assms by (intro sum.cong) simp_all
  finally show ?thesis .
qed

lemma objective_nth: "objective w = (\<Sum>i<length w. (w ! i)\<^sup>2)"
  by (simp add: objective_def sum_list_sum_nth atLeast0LessThan)

lemma dot_sw:
  "dot (map (sw_s a1 a2) probs) (map (dens n) probs) = a1 * V Bkg n probs + a2 * V Sig n probs"
proof -
  have "dot (map (sw_s a1 a2) probs) (map (dens n) probs)
        = (\<Sum>i<length probs. sw_s a1 a2 (probs ! i) * dens n (probs ! i))"
    by (subst dot_map) simp_all
  also have "\<dots> = (\<Sum>r\<leftarrow>probs. sw_s a1 a2 r * dens n r)"
    by (simp add: sum_list_sum_nth atLeast0LessThan)
  also have "\<dots> = a1 * V Bkg n probs + a2 * V Sig n probs"
    unfolding V_def by (induction probs) (simp_all add: sw_s_def algebra_simps)
  finally show ?thesis .
qed

lemma dens_funs: "bck = dens Bkg" "sig = dens Sig"
  by (rule ext, simp)+

lemma sw_feasible:
  assumes "linear_system N_sig probs a1 a2"
  shows "feasible N_sig probs (map (sw_s a1 a2) probs)"
  using assms unfolding feasible_def linear_system_def dens_funs dot_sw
  by (simp add: V_sym [of Sig Bkg])

lemma feasible_sums:
  "feasible N_sig probs w \<longleftrightarrow>
     length w = length probs \<and>
     (\<Sum>i<length probs. w ! i * bck (probs ! i)) = 0 \<and>
     (\<Sum>i<length probs. w ! i * sig (probs ! i)) = N_sig"
proof (cases "length w = length probs")
  case True
  then show ?thesis
    by (simp add: feasible_def dot_map [OF True])
next
  case False
  then show ?thesis
    by (simp add: feasible_def)
qed

lemma objective_split:
  assumes sys: "linear_system N_sig probs a1 a2" and fw: "feasible N_sig probs w"
  shows "objective w = objective (map (sw_s a1 a2) probs)
           + (\<Sum>i<length probs. (w ! i - sw_s a1 a2 (probs ! i))\<^sup>2)"
proof -
  let ?n = "length probs"
  let ?s = "\<lambda>i. sw_s a1 a2 (probs ! i)"
  from fw have len: "length w = ?n" by (simp add: feasible_def)
  from fw have wb: "(\<Sum>i<?n. w ! i * bck (probs ! i)) = 0"
    and ws: "(\<Sum>i<?n. w ! i * sig (probs ! i)) = N_sig"
    by (simp_all add: feasible_sums)
  from sw_feasible [OF sys] have
        sb: "(\<Sum>i<?n. ?s i * bck (probs ! i)) = 0"
    and ss: "(\<Sum>i<?n. ?s i * sig (probs ! i)) = N_sig"
    by (simp_all add: feasible_sums)
  have "(\<Sum>i<?n. (w ! i - ?s i) * ?s i)
        = (\<Sum>i<?n. a1 * (w ! i * bck (probs ! i)) - a1 * (?s i * bck (probs ! i))
                    + (a2 * (w ! i * sig (probs ! i)) - a2 * (?s i * sig (probs ! i))))"
    by (intro sum.cong refl) (simp add: sw_s_def algebra_simps)
  also have "\<dots> = a1 * (\<Sum>i<?n. w ! i * bck (probs ! i)) - a1 * (\<Sum>i<?n. ?s i * bck (probs ! i))
                    + (a2 * (\<Sum>i<?n. w ! i * sig (probs ! i)) - a2 * (\<Sum>i<?n. ?s i * sig (probs ! i)))"
    by (simp only: sum.distrib sum_subtractf sum_distrib_left)
  also have "\<dots> = 0"
    by (simp add: wb ws sb ss)
  finally have cross: "(\<Sum>i<?n. (w ! i - ?s i) * ?s i) = 0" .
  have "objective w = (\<Sum>i<?n. (w ! i)\<^sup>2)"
    by (simp add: objective_nth len)
  also have "\<dots> = (\<Sum>i<?n. (?s i)\<^sup>2 + (w ! i - ?s i)\<^sup>2 + 2 * ((w ! i - ?s i) * ?s i))"
    by (intro sum.cong refl) (simp add: power2_eq_square algebra_simps)
  also have "\<dots> = (\<Sum>i<?n. (?s i)\<^sup>2) + (\<Sum>i<?n. (w ! i - ?s i)\<^sup>2) + 2 * (\<Sum>i<?n. (w ! i - ?s i) * ?s i)"
    by (simp only: sum.distrib sum_distrib_left)
  also have "(\<Sum>i<?n. (?s i)\<^sup>2) = objective (map (sw_s a1 a2) probs)"
    by (simp add: objective_nth)
  finally show ?thesis
    by (simp add: cross)
qed

lemma solution_is_unique_minimiser:
  assumes sys: "linear_system N_sig probs a1 a2"
  shows "unique_minimiser N_sig probs (map (sw_s a1 a2) probs)"
  unfolding unique_minimiser_def
proof (intro conjI allI impI)
  show "feasible N_sig probs (map (sw_s a1 a2) probs)"
    by (rule sw_feasible [OF sys])
next
  fix w'
  assume "feasible N_sig probs w'"
  from objective_split [OF sys this]
  show "objective (map (sw_s a1 a2) probs) \<le> objective w'"
    by (simp add: sum_nonneg)
next
  fix w'
  assume h: "feasible N_sig probs w' \<and> objective w' \<le> objective (map (sw_s a1 a2) probs)"
  then have len: "length w' = length probs" by (simp add: feasible_def)
  from h objective_split [OF sys, of w']
  have "(\<Sum>i<length probs. (w' ! i - sw_s a1 a2 (probs ! i))\<^sup>2) \<le> 0" by simp
  moreover have "0 \<le> (\<Sum>i<length probs. (w' ! i - sw_s a1 a2 (probs ! i))\<^sup>2)"
    by (simp add: sum_nonneg)
  ultimately have "(\<Sum>i<length probs. (w' ! i - sw_s a1 a2 (probs ! i))\<^sup>2) = 0"
    by simp
  then have z: "\<forall>i \<in> {..<length probs}. (w' ! i - sw_s a1 a2 (probs ! i))\<^sup>2 = 0"
    by (subst (asm) sum_nonneg_eq_0_iff) simp_all
  show "w' = map (sw_s a1 a2) probs"
  proof (rule nth_equalityI)
    show "length w' = length (map (sw_s a1 a2) probs)" using len by simp
  next
    fix i assume "i < length w'"
    with len z show "w' ! i = map (sw_s a1 a2) probs ! i" by simp
  qed
qed

lemma cramer_solves:
  assumes "det_V probs \<noteq> 0"
  shows "\<exists>a1 a2. sig_coefficients N_sig probs = Inr (a1, a2) \<and> linear_system N_sig probs a1 a2"
proof -
  let ?d = "det_V probs"
  let ?a1 = "(0 * V Sig Sig probs - V Bkg Sig probs * N_sig) / ?d"
  let ?a2 = "(V Bkg Bkg probs * N_sig - V Sig Bkg probs * 0) / ?d"
  have c: "sig_coefficients N_sig probs = Inr (?a1, ?a2)"
    using assms by (simp add: sig_coefficients_def solve2_def det_V_def Let_def)
  have comb: "(x / ?d) * a + (y / ?d) * b = (x * a + y * b) / ?d" for a b x y :: real
    by (simp add: add_divide_distrib)
  have n1: "(0 * V Sig Sig probs - V Bkg Sig probs * N_sig) * V Bkg Bkg probs
            + (V Bkg Bkg probs * N_sig - V Sig Bkg probs * 0) * V Bkg Sig probs = 0"
    and n2: "(0 * V Sig Sig probs - V Bkg Sig probs * N_sig) * V Sig Bkg probs
            + (V Bkg Bkg probs * N_sig - V Sig Bkg probs * 0) * V Sig Sig probs = N_sig * ?d"
    by (simp_all add: det_V_def algebra_simps)
  have "linear_system N_sig probs ?a1 ?a2"
    unfolding linear_system_def comb n1 n2 using assms by simp
  with c show ?thesis by blast
qed

lemma feasible_system_solvable:
  assumes fw: "feasible N_sig probs w"
  shows "\<exists>a1 a2. linear_system N_sig probs a1 a2"
proof (cases "det_V probs = 0")
  case False
  from cramer_solves [OF this] show ?thesis by blast
next
  case True
  from fw have wb: "(\<Sum>i<length probs. w ! i * bck (probs ! i)) = 0"
    and ws: "(\<Sum>i<length probs. w ! i * sig (probs ! i)) = N_sig"
    by (simp_all add: feasible_sums)
  from det_zero_dependent [OF True] obtain c1 c2
    where rel: "\<forall>r \<in> set probs. c1 * sig r + c2 * bck r = 0" and nz: "c1 \<noteq> 0 \<or> c2 \<noteq> 0"
    by blast
  have "c1 * N_sig = c1 * (\<Sum>i<length probs. w ! i * sig (probs ! i)) + c2 * (\<Sum>i<length probs. w ! i * bck (probs ! i))"
    by (simp add: wb ws)
  also have "\<dots> = (\<Sum>i<length probs. w ! i * (c1 * sig (probs ! i) + c2 * bck (probs ! i)))"
    by (simp add: sum_distrib_left sum.distrib algebra_simps)
  also have "\<dots> = 0"
    using rel by (intro sum.neutral) simp
  finally have cN: "c1 * N_sig = 0" .
  show ?thesis
  proof (cases "N_sig = 0")
    case True
    then have "linear_system N_sig probs 0 0" by (simp add: linear_system_def)
    then show ?thesis by blast
  next
    case False
    with cN have c1: "c1 = 0" by simp
    with nz have c2: "c2 \<noteq> 0" by simp
    from rel c1 c2 have b0: "\<forall>r \<in> set probs. bck r = 0" by simp
    have vb: "V n Bkg probs = 0" "V Bkg n probs = 0" for n
      using b0 unfolding V_def by (induction probs) simp_all
    have "V Sig Sig probs \<noteq> 0"
    proof
      assume "V Sig Sig probs = 0"
      then have "(\<Sum>r\<leftarrow>probs. (sig r)\<^sup>2) = 0" by (simp add: V_def power2_eq_square)
      then have "\<forall>r \<in> set probs. sig r = 0" by (simp add: sum_sq_zero)
      then have "(\<Sum>i<length probs. w ! i * sig (probs ! i)) = 0"
        by (intro sum.neutral) simp
      with ws False show False by simp
    qed
    then have "N_sig / V Sig Sig probs * V Sig Sig probs = N_sig"
      by simp
    then have "linear_system N_sig probs 0 (N_sig / V Sig Sig probs)"
      by (simp add: linear_system_def vb)
    then show ?thesis by blast
  qed
qed

lemma quadratic_V_sum:
  "quadratic_V probs x = (\<Sum>r\<leftarrow>probs. (x Sig * sig r + x Bkg * bck r)\<^sup>2)"
proof -
  have "quadratic_V probs x
        = x Sig * x Sig * V Sig Sig probs + 2 * x Sig * x Bkg * V Sig Bkg probs
          + x Bkg * x Bkg * V Bkg Bkg probs"
    by (simp add: quadratic_V_def V_sym [of Bkg Sig] algebra_simps)
  then show ?thesis
    by (simp only: quadratic_form)
qed

text \<open>
  Claim C5.  When the two density vectors are linearly independent over the
  sample, the matrix of second moments is symmetric and positive semi-definite;
  it is then even positive definite.
\<close>

theorem second_moment_matrix_symmetric_psd:
  assumes "linearly_independent probs"
  shows "(\<forall>n j. V n j probs = V j n probs)
         \<and> (\<forall>x. 0 \<le> quadratic_V probs x)
         \<and> (\<forall>x. x Sig \<noteq> 0 \<or> x Bkg \<noteq> 0 \<longrightarrow> 0 < quadratic_V probs x)"
proof (intro conjI allI impI)
  fix n j
  show "V n j probs = V j n probs" by (rule V_sym)
next
  fix x :: "species \<Rightarrow> real"
  show "0 \<le> quadratic_V probs x"
    unfolding quadratic_V_sum by (rule sum_list_nonneg) auto
next
  fix x :: "species \<Rightarrow> real"
  assume nz: "x Sig \<noteq> 0 \<or> x Bkg \<noteq> 0"
  have ge: "0 \<le> quadratic_V probs x"
    unfolding quadratic_V_sum by (rule sum_list_nonneg) auto
  have "quadratic_V probs x \<noteq> 0"
  proof
    assume "quadratic_V probs x = 0"
    then have "\<forall>r \<in> set probs. x Sig * sig r + x Bkg * bck r = 0"
      by (simp only: quadratic_V_sum sum_sq_zero)
    with assms have "x Sig = 0 \<and> x Bkg = 0"
      unfolding linearly_independent_def by blast
    with nz show False by simp
  qed
  with ge show "0 < quadratic_V probs x" by simp
qed

lemma li_example: "linearly_independent [\<lparr>sig = 2, bck = 1\<rparr>, \<lparr>sig = 1, bck = 2\<rparr>]"
proof -
  have "det_V [\<lparr>sig = 2, bck = 1\<rparr>, \<lparr>sig = 1, bck = 2\<rparr>] \<noteq> 0"
    by (simp add: det_V_def V_def)
  then show ?thesis using det_nonzero_iff_independent by blast
qed

theorem second_moment_matrix_symmetric_psd_witness:
  "linearly_independent [\<lparr>sig = 2, bck = 1\<rparr>, \<lparr>sig = 1, bck = 2\<rparr>]
   \<and> V Sig Bkg [\<lparr>sig = 2, bck = 1\<rparr>, \<lparr>sig = 1, bck = 2\<rparr>] = 4
   \<and> V Bkg Sig [\<lparr>sig = 2, bck = 1\<rparr>, \<lparr>sig = 1, bck = 2\<rparr>] = 4
   \<and> quadratic_V [\<lparr>sig = 2, bck = 1\<rparr>, \<lparr>sig = 1, bck = 2\<rparr>] (case_species 1 (- 1)) = 2
   \<and> 0 \<le> quadratic_V [\<lparr>sig = 2, bck = 1\<rparr>, \<lparr>sig = 1, bck = 2\<rparr>] (case_species 1 (- 1))"
proof -
  let ?P = "[\<lparr>sig = 2, bck = 1\<rparr>, \<lparr>sig = 1, bck = 2\<rparr>]"
  have li: "linearly_independent ?P" by (rule li_example)
  have v: "V Sig Bkg ?P = 4" "V Bkg Sig ?P = 4"
    by (simp_all add: V_def)
  have q: "quadratic_V ?P (case_species 1 (- 1)) = 2"
    by (simp add: quadratic_V_def V_def)
  from second_moment_matrix_symmetric_psd [OF li]
  have "0 \<le> quadratic_V ?P (case_species 1 (- 1))" by blast
  with li v q show ?thesis by (intro conjI)
qed

text \<open>
  Claim C3.  The matrix of second moments is invertible exactly when the two
  density vectors are linearly independent over the sample.  For linearly
  dependent vectors the computation fails with the singular-matrix error; for
  linearly independent ones it returns the coefficients and the weights.
\<close>

theorem invertible_iff_linearly_independent:
  "(invertible_V probs \<longleftrightarrow> linearly_independent probs)
   \<and> (\<not> linearly_independent probs \<longrightarrow> sweights_sig N_sig probs = Inl Singular_matrix)
   \<and> (linearly_independent probs \<longrightarrow>
        (\<exists>a1 a2. sig_coefficients N_sig probs = Inr (a1, a2)
                 \<and> sweights_sig N_sig probs = Inr (map (sw_s a1 a2) probs)))"
proof (intro conjI impI)
  show "invertible_V probs \<longleftrightarrow> linearly_independent probs"
    using invertible_iff_det [of probs] det_nonzero_iff_independent [of probs] by blast
next
  assume "\<not> linearly_independent probs"
  then have "det_V probs = 0"
    using det_nonzero_iff_independent [of probs] by blast
  then show "sweights_sig N_sig probs = Inl Singular_matrix"
    by (simp add: sweights_sig_def sig_coefficients_def solve2_def det_V_def)
next
  assume "linearly_independent probs"
  then have "det_V probs \<noteq> 0"
    using det_nonzero_iff_independent [of probs] by blast
  from cramer_solves [OF this, of N_sig] obtain a1 a2
    where c: "sig_coefficients N_sig probs = Inr (a1, a2)" by blast
  then have "sweights_sig N_sig probs = Inr (map (sw_s a1 a2) probs)"
    by (simp add: sweights_sig_def)
  with c show "\<exists>a1 a2. sig_coefficients N_sig probs = Inr (a1, a2)
                 \<and> sweights_sig N_sig probs = Inr (map (sw_s a1 a2) probs)"
    by blast
qed

theorem invertible_iff_linearly_independent_witness:
  "\<not> linearly_independent [\<lparr>sig = 1, bck = 2\<rparr>, \<lparr>sig = 3, bck = 6\<rparr>]
   \<and> \<not> invertible_V [\<lparr>sig = 1, bck = 2\<rparr>, \<lparr>sig = 3, bck = 6\<rparr>]
   \<and> sweights_sig 5 [\<lparr>sig = 1, bck = 2\<rparr>, \<lparr>sig = 3, bck = 6\<rparr>] = Inl Singular_matrix
   \<and> linearly_independent [\<lparr>sig = 2, bck = 1\<rparr>, \<lparr>sig = 1, bck = 2\<rparr>]
   \<and> invertible_V [\<lparr>sig = 2, bck = 1\<rparr>, \<lparr>sig = 1, bck = 2\<rparr>]
   \<and> sweights_sig 3 [\<lparr>sig = 2, bck = 1\<rparr>, \<lparr>sig = 1, bck = 2\<rparr>] = Inr [2, - 1]"
proof -
  let ?Q = "[\<lparr>sig = 1, bck = 2\<rparr>, \<lparr>sig = 3, bck = 6\<rparr>]"
  let ?P = "[\<lparr>sig = 2, bck = 1\<rparr>, \<lparr>sig = 1, bck = 2\<rparr>]"
  have "det_V ?Q = 0" by (simp add: det_V_def V_def)
  then have nq: "\<not> linearly_independent ?Q"
    using det_nonzero_iff_independent [of ?Q] by blast
  have lp: "linearly_independent ?P" by (rule li_example)
  note q = invertible_iff_linearly_independent [of ?Q 5]
  note p = invertible_iff_linearly_independent [of ?P 3]
  from q nq have q1: "\<not> invertible_V ?Q" by blast
  from q nq have q2: "sweights_sig 5 ?Q = Inl Singular_matrix" by blast
  from p lp have p1: "invertible_V ?P" by blast
  have p2: "sweights_sig 3 ?P = Inr [2, - 1]"
    by (simp add: sweights_sig_def sig_coefficients_def solve2_def V_def sw_s_def)
  from nq q1 q2 lp p1 p2 show ?thesis by (intro conjI)
qed

subsection \<open>The optimisation problem and the closed form\<close>

text \<open>
  Claim C2, as stated, fails for a sample on which the two probabilities coincide:
  with one event of probabilities \<open>(1/2, 1/2)\<close> and \<open>N_sig = 1\<close> no weights meet the
  two constraints, so the optimisation problem has no solution; the linear system
  has none either, and the closed-form computation fails.
\<close>

theorem optimisation_counterexample:
  "\<not> (\<exists>w. feasible 1 [\<lparr>sig = 1 / 2, bck = 1 / 2\<rparr>] w)
   \<and> \<not> (\<exists>w. unique_minimiser 1 [\<lparr>sig = 1 / 2, bck = 1 / 2\<rparr>] w)
   \<and> \<not> (\<exists>a1 a2. linear_system 1 [\<lparr>sig = 1 / 2, bck = 1 / 2\<rparr>] a1 a2)
   \<and> sweights_sig 1 [\<lparr>sig = 1 / 2, bck = 1 / 2\<rparr>] = Inl Singular_matrix"
proof -
  have f: "\<not> (\<exists>w. feasible 1 [\<lparr>sig = 1 / 2, bck = 1 / 2\<rparr>] w)"
    by (auto simp add: feasible_def)
  then have u: "\<not> (\<exists>w. unique_minimiser 1 [\<lparr>sig = 1 / 2, bck = 1 / 2\<rparr>] w)"
    by (simp add: unique_minimiser_def)
  have l: "\<not> (\<exists>a1 a2. linear_system 1 [\<lparr>sig = 1 / 2, bck = 1 / 2\<rparr>] a1 a2)"
    by (auto simp add: linear_system_def V_def)
  have s: "sweights_sig 1 [\<lparr>sig = 1 / 2, bck = 1 / 2\<rparr>] = Inl Singular_matrix"
    by (simp add: sweights_sig_def sig_coefficients_def solve2_def V_def)
  from f u l s show ?thesis by (intro conjI)
qed

text \<open>
  Claim C2, amended.  Whenever some weights meet the two constraints, the
  \<open>2 \<times> 2\<close> system has a solution; for every solution \<open>(a1, a2)\<close> of the system the
  linear combination \<open>a1 * p_bkg + a2 * p_sig\<close> is the unique minimiser of the sum of
  squared weights under the constraints; and when the matrix of second moments
  is invertible, the closed-form computation returns exactly these weights.
\<close>

theorem sweights_solve_optimisation:
  "((\<exists>w. feasible N_sig probs w) \<longrightarrow> (\<exists>a1 a2. linear_system N_sig probs a1 a2))
   \<and> (\<forall>a1 a2. linear_system N_sig probs a1 a2 \<longrightarrow>
         unique_minimiser N_sig probs (map (sw_s a1 a2) probs))
   \<and> (invertible_V probs \<longrightarrow>
         (\<exists>a1 a2. linear_system N_sig probs a1 a2
                  \<and> sweights_sig N_sig probs = Inr (map (sw_s a1 a2) probs)))"
proof (intro conjI allI impI)
  assume "\<exists>w. feasible N_sig probs w"
  then obtain w where "feasible N_sig probs w" ..
  then show "\<exists>a1 a2. linear_system N_sig probs a1 a2"
    by (rule feasible_system_solvable)
next
  fix a1 a2
  assume "linear_system N_sig probs a1 a2"
  then show "unique_minimiser N_sig probs (map (sw_s a1 a2) probs)"
    by (rule solution_is_unique_minimiser)
next
  assume "invertible_V probs"
  then have "det_V probs \<noteq> 0"
    using invertible_iff_det [of probs] by blast
  from cramer_solves [OF this, of N_sig] obtain a1 a2
    where c: "sig_coefficients N_sig probs = Inr (a1, a2)"
      and l: "linear_system N_sig probs a1 a2" by blast
  from c have "sweights_sig N_sig probs = Inr (map (sw_s a1 a2) probs)"
    by (simp add: sweights_sig_def)
  with l show "\<exists>a1 a2. linear_system N_sig probs a1 a2
                  \<and> sweights_sig N_sig probs = Inr (map (sw_s a1 a2) probs)"
    by blast
qed

theorem sweights_solve_optimisation_witness:
  "feasible 3 [\<lparr>sig = 2, bck = 1\<rparr>, \<lparr>sig = 1, bck = 2\<rparr>] [2, - 1]
   \<and> invertible_V [\<lparr>sig = 2, bck = 1\<rparr>, \<lparr>sig = 1, bck = 2\<rparr>]
   \<and> linear_system 3 [\<lparr>sig = 2, bck = 1\<rparr>, \<lparr>sig = 1, bck = 2\<rparr>] (- 4 / 3) (5 / 3)
   \<and> sweights_sig 3 [\<lparr>sig = 2, bck = 1\<rparr>, \<lparr>sig = 1, bck = 2\<rparr>] = Inr [2, - 1]
   \<and> unique_minimiser 3 [\<lparr>sig = 2, bck = 1\<rparr>, \<lparr>sig = 1, bck = 2\<rparr>] [2, - 1]"
proof -
  let ?P = "[\<lparr>sig = 2, bck = 1\<rparr>, \<lparr>sig = 1, bck = 2\<rparr>]"
  have f: "feasible 3 ?P [2, - 1]"
    by (simp add: feasible_def dot_def)
  have "det_V ?P \<noteq> 0" by (simp add: det_V_def V_def)
  then have i: "invertible_V ?P" using invertible_iff_det [of ?P] by blast
  have l: "linear_system 3 ?P (- 4 / 3) (5 / 3)"
    by (simp add: linear_system_def V_def)
  have s: "sweights_sig 3 ?P = Inr [2, - 1]"
    by (simp add: sweights_sig_def sig_coefficients_def solve2_def V_def sw_s_def)
  have m: "map (sw_s (- 4 / 3) (5 / 3)) ?P = [2, - 1]"
    by (simp add: sw_s_def)
  from sweights_solve_optimisation [of 3 ?P] l
  have "unique_minimiser 3 ?P (map (sw_s (- 4 / 3) (5 / 3)) ?P)" by blast
  then have u: "unique_minimiser 3 ?P [2, - 1]" by (simp only: m)
  from f i l s u show ?thesis by (intro conjI)
qed

section \<open>The sums of the sWeights\<close>

lemma V_inv_times_yields:
  assumes "\<forall>r \<in> set F. total_density N r \<noteq> 0"
  shows "V_inv N j Sig F * N Sig + V_inv N j Bkg F * N Bkg = (\<Sum>r\<leftarrow>F. dens j r / total_density N r)"
  using assms
proof (induction F)
  case Nil
  show ?case by (simp add: V_inv_def)
next
  case (Cons r F)
  let ?D = "total_density N r"
  from Cons.prems have nz: "?D \<noteq> 0" by simp
  have "dens j r * dens Sig r / ?D\<^sup>2 * N Sig + dens j r * dens Bkg r / ?D\<^sup>2 * N Bkg
        = dens j r * ?D / ?D\<^sup>2"
    by (simp add: total_density_def add_divide_distrib algebra_simps)
  also have "\<dots> = dens j r / ?D"
    using nz by (simp add: power2_eq_square)
  finally have t: "dens j r * dens Sig r / ?D\<^sup>2 * N Sig + dens j r * dens Bkg r / ?D\<^sup>2 * N Bkg
        = dens j r / ?D" .
  from Cons have ih: "V_inv N j Sig F * N Sig + V_inv N j Bkg F * N Bkg = (\<Sum>r\<leftarrow>F. dens j r / total_density N r)"
    by simp
  have "V_inv N j Sig (r # F) * N Sig + V_inv N j Bkg (r # F) * N Bkg
        = (dens j r * dens Sig r / ?D\<^sup>2 * N Sig + dens j r * dens Bkg r / ?D\<^sup>2 * N Bkg)
          + (V_inv N j Sig F * N Sig + V_inv N j Bkg F * N Bkg)"
    by (simp add: V_inv_def algebra_simps)
  also have "\<dots> = dens j r / ?D + (\<Sum>r\<leftarrow>F. dens j r / total_density N r)"
    by (simp only: t ih)
  finally show ?case by simp
qed

lemma sum_W:
  "(\<Sum>r\<leftarrow>map (W N (v_ss, v_sb, v_bs, v_bb)) F. sig r)
     = v_ss * (\<Sum>r\<leftarrow>F. dens Sig r / total_density N r) + v_sb * (\<Sum>r\<leftarrow>F. dens Bkg r / total_density N r)"
  "(\<Sum>r\<leftarrow>map (W N (v_ss, v_sb, v_bs, v_bb)) F. bck r)
     = v_bs * (\<Sum>r\<leftarrow>F. dens Sig r / total_density N r) + v_bb * (\<Sum>r\<leftarrow>F. dens Bkg r / total_density N r)"
  by (induction F) (simp_all add: W_def add_divide_distrib algebra_simps)

text \<open>
  Claim C1.  For yields and densities that satisfy the conditions of the extended
  maximum-likelihood fit, with nonvanishing denominators and an invertible
  matrix \<open>V^-1\<close>, the computation returns weights, and the signal weights summed
  over all events give \<open>N_sig\<close>, the background weights \<open>N_bkg\<close>.
\<close>

theorem sweights_sum_to_yields:
  assumes fit: "ml_fit_conditions N F"
    and dens: "\<forall>r \<in> set F. total_density N r \<noteq> 0"
    and det: "det_V_inv N F \<noteq> 0"
  shows "\<exists>weights. hepstats_compute_sweights N F = Inr weights
           \<and> length weights = length F
           \<and> (\<Sum>w\<leftarrow>weights. sig w) = N Sig
           \<and> (\<Sum>w\<leftarrow>weights. bck w) = N Bkg"
proof -
  let ?a = "V_inv N Sig Sig F" and ?b = "V_inv N Sig Bkg F"
  let ?c = "V_inv N Bkg Sig F" and ?d = "V_inv N Bkg Bkg F"
  let ?D = "det_V_inv N F"
  let ?Vm = "(?d / ?D, - ?b / ?D, - ?c / ?D, ?a / ?D)"
  from fit have u: "(\<Sum>r\<leftarrow>F. dens Sig r / total_density N r) = 1"
                   "(\<Sum>r\<leftarrow>F. dens Bkg r / total_density N r) = 1"
    by (simp_all add: ml_fit_conditions_def)
  have e1: "?a * N Sig + ?b * N Bkg = 1"
    using V_inv_times_yields [OF dens, of Sig] unfolding u .
  have e2: "?c * N Sig + ?d * N Bkg = 1"
    using V_inv_times_yields [OF dens, of Bkg] unfolding u .
  have res: "hepstats_compute_sweights N F = Inr (map (W N ?Vm) F)"
    using dens det by (simp add: hepstats_compute_sweights_def invert2_def det_V_inv_def Let_def)
  have "?D * N Sig = ?d * (?a * N Sig + ?b * N Bkg) - ?b * (?c * N Sig + ?d * N Bkg)"
    by (simp add: det_V_inv_def algebra_simps)
  then have "?D * N Sig = ?d - ?b" by (simp add: e1 e2)
  then have s: "?d / ?D + - ?b / ?D = N Sig"
    using det by (simp add: field_simps)
  have "?D * N Bkg = ?a * (?c * N Sig + ?d * N Bkg) - ?c * (?a * N Sig + ?b * N Bkg)"
    by (simp add: det_V_inv_def algebra_simps)
  then have "?D * N Bkg = ?a - ?c" by (simp add: e1 e2)
  then have b: "- ?c / ?D + ?a / ?D = N Bkg"
    using det by (simp add: field_simps)
  have "(\<Sum>w\<leftarrow>map (W N ?Vm) F. sig w) = N Sig"
    unfolding sum_W u using s by simp
  moreover have "(\<Sum>w\<leftarrow>map (W N ?Vm) F. bck w) = N Bkg"
    unfolding sum_W u using b by simp
  ultimately show ?thesis
    using res by simp
qed

theorem sweights_sum_to_yields_witness:
  "ml_fit_conditions (\<lambda>n. 1) [\<lparr>sig = 2, bck = 1\<rparr>, \<lparr>sig = 1, bck = 2\<rparr>]
   \<and> total_density (\<lambda>n. 1) \<lparr>sig = 2, bck = 1\<rparr> = 3
   \<and> total_density (\<lambda>n. 1) \<lparr>sig = 1, bck = 2\<rparr> = 3
   \<and> det_V_inv (\<lambda>n. 1) [\<lparr>sig = 2, bck = 1\<rparr>, \<lparr>sig = 1, bck = 2\<rparr>] = 1 / 9
   \<and> hepstats_compute_sweights (\<lambda>n. 1) [\<lparr>sig = 2, bck = 1\<rparr>, \<lparr>sig = 1, bck = 2\<rparr>]
       = Inr [\<lparr>sig = 2, bck = - 1\<rparr>, \<lparr>sig = - 1, bck = 2\<rparr>]
   \<and> (\<exists>weights. hepstats_compute_sweights (\<lambda>n. 1) [\<lparr>sig = 2, bck = 1\<rparr>, \<lparr>sig = 1, bck = 2\<rparr>] = Inr weights
         \<and> length weights = length [\<lparr>sig = 2, bck = 1\<rparr>, \<lparr>sig = 1, bck = 2\<rparr> :: prob_row]
         \<and> (\<Sum>w\<leftarrow>weights. sig w) = 1 \<and> (\<Sum>w\<leftarrow>weights. bck w) = 1)"
proof -
  let ?F = "[\<lparr>sig = 2, bck = 1\<rparr>, \<lparr>sig = 1, bck = 2\<rparr> :: prob_row]"
  let ?N = "\<lambda>n::species. 1::real"
  have fit: "ml_fit_conditions ?N ?F"
    by (simp add: ml_fit_conditions_def total_density_def)
  have t: "total_density ?N \<lparr>sig = 2, bck = 1\<rparr> = 3" "total_density ?N \<lparr>sig = 1, bck = 2\<rparr> = 3"
    by (simp_all add: total_density_def)
  then have nz: "\<forall>r \<in> set ?F. total_density ?N r \<noteq> 0" by simp
  have d: "det_V_inv ?N ?F = 1 / 9"
    by (simp add: det_V_inv_def V_inv_def total_density_def power2_eq_square)
  then have dn: "det_V_inv ?N ?F \<noteq> 0" by simp
  have v: "hepstats_compute_sweights ?N ?F = Inr [\<lparr>sig = 2, bck = - 1\<rparr>, \<lparr>sig = - 1, bck = 2\<rparr>]"
    by (simp add: hepstats_compute_sweights_def invert2_def V_inv_def total_density_def W_def
        power2_eq_square)
  have "\<exists>weights. hepstats_compute_sweights ?N ?F = Inr weights
         \<and> length weights = length ?F
         \<and> (\<Sum>w\<leftarrow>weights. sig w) = 1 \<and> (\<Sum>w\<leftarrow>weights. bck w) = 1"
    by (rule sweights_sum_to_yields [OF fit nz dn])
  with fit t d v show ?thesis by (intro conjI)
qed

section \<open>Runs of the workflow\<close>

lemma cmd_neq:
  "starterkit_ci_build \<noteq> starterkit_ci_deploy" "starterkit_ci_deploy \<noteq> starterkit_ci_build"
  "pip_install \<noteq> starterkit_ci_deploy" "starterkit_ci_deploy \<noteq> pip_install"
  "pip_install \<noteq> starterkit_ci_build" "starterkit_ci_build \<noteq> pip_install"
  by (simp_all add: starterkit_ci_build_def starterkit_ci_deploy_def pip_install_def)

lemma build_webpage_unfold:
  "build_webpage rn g =
    (if \<not> build_pages_if g then ([], Skipped)
     else if \<not> uses_ok rn ''actions/checkout@v4'' then ([Started (Some ''Checkout code''), Used ''actions/checkout@v4''], Failed)
     else if \<not> uses_ok rn ''conda-incubator/setup-miniconda@v2''
       then ([Started (Some ''Checkout code''), Used ''actions/checkout@v4'', Started None, Used ''conda-incubator/setup-miniconda@v2''], Failed)
     else if exit_status rn pip_install \<noteq> 0
       then ([Started (Some ''Checkout code''), Used ''actions/checkout@v4'', Started None, Used ''conda-incubator/setup-miniconda@v2'',
              Started (Some ''Install starterkit-ci''), Invoked pip_install], Failed)
     else if exit_status rn starterkit_ci_build \<noteq> 0
       then ([Started (Some ''Checkout code''), Used ''actions/checkout@v4'', Started None, Used ''conda-incubator/setup-miniconda@v2'',
              Started (Some ''Install starterkit-ci''), Invoked pip_install, Started (Some ''Build webpage''), Invoked starterkit_ci_build], Failed)
     else if \<not> deploy_if g
       then ([Started (Some ''Checkout code''), Used ''actions/checkout@v4'', Started None, Used ''conda-incubator/setup-miniconda@v2'',
              Started (Some ''Install starterkit-ci''), Invoked pip_install, Started (Some ''Build webpage''), Invoked starterkit_ci_build], Succeeded)
     else ([Started (Some ''Checkout code''), Used ''actions/checkout@v4'', Started None, Used ''conda-incubator/setup-miniconda@v2'',
            Started (Some ''Install starterkit-ci''), Invoked pip_install, Started (Some ''Build webpage''), Invoked starterkit_ci_build,
            Started (Some ''Deploy webpage''), Set_env ''TRAVIS_BRANCH'' (remove_prefix ''refs/heads/'' (ref g)),
            Set_env ''TRAVIS_REPO_SLUG'' (repository g),
            Set_env ''INPUT_GITHUB_TOKEN'' (github_token g),
            Invoked starterkit_ci_deploy],
           if exit_status rn starterkit_ci_deploy = 0 then Succeeded else Failed))"
  by (simp add: build_webpage_def build_pages_steps_def no_if_def)

lemma trace_cases:
  "trace rn g = [] \<or>
   trace rn g = [Started (Some ''Checkout code''), Used ''actions/checkout@v4''] \<or>
   trace rn g = [Started (Some ''Checkout code''), Used ''actions/checkout@v4'', Started None, Used ''conda-incubator/setup-miniconda@v2''] \<or>
   trace rn g = [Started (Some ''Checkout code''), Used ''actions/checkout@v4'', Started None, Used ''conda-incubator/setup-miniconda@v2'',
                 Started (Some ''Install starterkit-ci''), Invoked pip_install] \<or>
   trace rn g = [Started (Some ''Checkout code''), Used ''actions/checkout@v4'', Started None, Used ''conda-incubator/setup-miniconda@v2'',
                 Started (Some ''Install starterkit-ci''), Invoked pip_install, Started (Some ''Build webpage''), Invoked starterkit_ci_build] \<or>
   trace rn g = [Started (Some ''Checkout code''), Used ''actions/checkout@v4'', Started None, Used ''conda-incubator/setup-miniconda@v2'',
                 Started (Some ''Install starterkit-ci''), Invoked pip_install, Started (Some ''Build webpage''), Invoked starterkit_ci_build,
                 Started (Some ''Deploy webpage''), Set_env ''TRAVIS_BRANCH'' (remove_prefix ''refs/heads/'' (ref g)),
                 Set_env ''TRAVIS_REPO_SLUG'' (repository g),
                 Set_env ''INPUT_GITHUB_TOKEN'' (github_token g),
                 Invoked starterkit_ci_deploy]"
  by (simp add: trace_def build_webpage_unfold)

lemma deploy_invoked_iff:
  "Invoked starterkit_ci_deploy \<in> set (trace rn g) \<longleftrightarrow>
     build_pages_if g \<and> uses_ok rn ''actions/checkout@v4''
     \<and> uses_ok rn ''conda-incubator/setup-miniconda@v2''
     \<and> exit_status rn pip_install = 0 \<and> exit_status rn starterkit_ci_build = 0 \<and> deploy_if g"
  by (simp add: trace_def build_webpage_unfold cmd_neq)

lemma build_invoked_iff:
  "Invoked starterkit_ci_build \<in> set (trace rn g) \<longleftrightarrow>
     build_pages_if g \<and> uses_ok rn ''actions/checkout@v4''
     \<and> uses_ok rn ''conda-incubator/setup-miniconda@v2''
     \<and> exit_status rn pip_install = 0"
  by (simp add: trace_def build_webpage_unfold cmd_neq)

lemma deploy_started_iff:
  "Started (Some ''Deploy webpage'') \<in> set (trace rn g) \<longleftrightarrow>
     build_pages_if g \<and> uses_ok rn ''actions/checkout@v4''
     \<and> uses_ok rn ''conda-incubator/setup-miniconda@v2''
     \<and> exit_status rn pip_install = 0 \<and> exit_status rn starterkit_ci_build = 0 \<and> deploy_if g"
  by (simp add: trace_def build_webpage_unfold)

text \<open>
  Claim C7.  In every run, the step \<^verbatim>\<open>Deploy webpage\<close> starts only if the event is
  a push, the repository is \<^verbatim>\<open>hsf-training/analysis-essentials\<close> and the ref is
  \<^verbatim>\<open>refs/heads/master\<close>; it never starts in a run for a pull request; and when it
  starts, it exports the branch, the repository slug and the token and then
  invokes \<^verbatim>\<open>starterkit_ci deploy\<close>, so that both \<^verbatim>\<open>INPUT_GITHUB_TOKEN\<close> and
  \<^verbatim>\<open>TRAVIS_REPO_SLUG\<close> are set before the invocation.
\<close>

theorem deploy_only_on_push_to_master:
  "(Started (Some ''Deploy webpage'') \<in> set (trace rn g) \<longrightarrow>
      event_name g = ''push'' \<and> repository g = ''hsf-training/analysis-essentials''
      \<and> ref g = ''refs/heads/master'')
   \<and> (event_name g = ''pull_request'' \<longrightarrow>
        Started (Some ''Deploy webpage'') \<notin> set (trace rn g)
        \<and> Invoked starterkit_ci_deploy \<notin> set (trace rn g))
   \<and> (Started (Some ''Deploy webpage'') \<in> set (trace rn g) \<longrightarrow>
        from_first (Started (Some ''Deploy webpage'')) (trace rn g)
          = [Started (Some ''Deploy webpage''),
             Set_env ''TRAVIS_BRANCH'' (remove_prefix ''refs/heads/'' (ref g)),
             Set_env ''TRAVIS_REPO_SLUG'' (repository g),
             Set_env ''INPUT_GITHUB_TOKEN'' (github_token g),
             Invoked starterkit_ci_deploy]
        \<and> Set_env ''INPUT_GITHUB_TOKEN'' (github_token g)
          \<in> set (before (Invoked starterkit_ci_deploy) (trace rn g))
        \<and> Set_env ''TRAVIS_REPO_SLUG'' (repository g)
          \<in> set (before (Invoked starterkit_ci_deploy) (trace rn g)))"
proof (intro conjI impI)
  assume "Started (Some ''Deploy webpage'') \<in> set (trace rn g)"
  then have "deploy_if g" by (simp add: deploy_started_iff)
  then show "event_name g = ''push''" "repository g = ''hsf-training/analysis-essentials''"
    "ref g = ''refs/heads/master''"
    by (simp_all add: deploy_if_def)
next
  assume "event_name g = ''pull_request''"
  then have n: "\<not> deploy_if g" by (simp add: deploy_if_def)
  from n show "Started (Some ''Deploy webpage'') \<notin> set (trace rn g)"
    by (simp add: deploy_started_iff)
  from n show "Invoked starterkit_ci_deploy \<notin> set (trace rn g)"
    by (simp add: deploy_invoked_iff)
next
  assume d: "Started (Some ''Deploy webpage'') \<in> set (trace rn g)"
  then have c: "build_pages_if g" "uses_ok rn ''actions/checkout@v4''"
     "uses_ok rn ''conda-incubator/setup-miniconda@v2''" "exit_status rn pip_install = 0"
     "exit_status rn starterkit_ci_build = 0" "deploy_if g"
    by (simp_all add: deploy_started_iff)
  then have tr: "trace rn g = [Started (Some ''Checkout code''), Used ''actions/checkout@v4'',
                 Started None, Used ''conda-incubator/setup-miniconda@v2'',
                 Started (Some ''Install starterkit-ci''), Invoked pip_install,
                 Started (Some ''Build webpage''), Invoked starterkit_ci_build,
                 Started (Some ''Deploy webpage''),
                 Set_env ''TRAVIS_BRANCH'' (remove_prefix ''refs/heads/'' (ref g)),
                 Set_env ''TRAVIS_REPO_SLUG'' (repository g),
                 Set_env ''INPUT_GITHUB_TOKEN'' (github_token g),
                 Invoked starterkit_ci_deploy]"
    by (simp add: trace_def build_webpage_unfold)
  show "from_first (Started (Some ''Deploy webpage'')) (trace rn g)
          = [Started (Some ''Deploy webpage''),
             Set_env ''TRAVIS_BRANCH'' (remove_prefix ''refs/heads/'' (ref g)),
             Set_env ''TRAVIS_REPO_SLUG'' (repository g),
             Set_env ''INPUT_GITHUB_TOKEN'' (github_token g),
             Invoked starterkit_ci_deploy]"
    unfolding tr by (simp add: from_first_def)
  show "Set_env ''INPUT_GITHUB_TOKEN'' (github_token g)
          \<in> set (before (Invoked starterkit_ci_deploy) (trace rn g))"
    unfolding tr by (simp add: before_def cmd_neq)
  show "Set_env ''TRAVIS_REPO_SLUG'' (repository g)
          \<in> set (before (Invoked starterkit_ci_deploy) (trace rn g))"
    unfolding tr by (simp add: before_def cmd_neq)
qed

text \<open>
  Claim C8.  In every run the build command and the deploy command are invoked at
  most once each; when either is invoked and exits with a nonzero status, the job
  fails and nothing runs after the failed command.
\<close>

theorem build_deploy_once_and_fail_the_job:
  "count_list (trace rn g) (Invoked starterkit_ci_build) \<le> 1
   \<and> count_list (trace rn g) (Invoked starterkit_ci_deploy) \<le> 1
   \<and> (Invoked starterkit_ci_build \<in> set (trace rn g) \<and> exit_status rn starterkit_ci_build \<noteq> 0 \<longrightarrow>
        job_conclusion rn g = Failed
        \<and> from_first (Invoked starterkit_ci_build) (trace rn g) = [Invoked starterkit_ci_build])
   \<and> (Invoked starterkit_ci_deploy \<in> set (trace rn g) \<and> exit_status rn starterkit_ci_deploy \<noteq> 0 \<longrightarrow>
        job_conclusion rn g = Failed
        \<and> from_first (Invoked starterkit_ci_deploy) (trace rn g) = [Invoked starterkit_ci_deploy])"
proof (intro conjI impI)
  show "count_list (trace rn g) (Invoked starterkit_ci_build) \<le> 1"
    using trace_cases [of rn g] by (auto simp add: cmd_neq)
  show "count_list (trace rn g) (Invoked starterkit_ci_deploy) \<le> 1"
    using trace_cases [of rn g] by (auto simp add: cmd_neq)
next
  assume h: "Invoked starterkit_ci_build \<in> set (trace rn g) \<and> exit_status rn starterkit_ci_build \<noteq> 0"
  then have c: "build_pages_if g" "uses_ok rn ''actions/checkout@v4''"
     "uses_ok rn ''conda-incubator/setup-miniconda@v2''" "exit_status rn pip_install = 0"
     "exit_status rn starterkit_ci_build \<noteq> 0"
    by (simp_all add: build_invoked_iff)
  then have b: "build_webpage rn g = ([Started (Some ''Checkout code''), Used ''actions/checkout@v4'', Started None, Used ''conda-incubator/setup-miniconda@v2'',
              Started (Some ''Install starterkit-ci''), Invoked pip_install, Started (Some ''Build webpage''), Invoked starterkit_ci_build], Failed)"
    by (simp add: build_webpage_unfold)
  show "job_conclusion rn g = Failed"
    by (simp add: job_conclusion_def b)
  show "from_first (Invoked starterkit_ci_build) (trace rn g) = [Invoked starterkit_ci_build]"
    by (simp add: trace_def b from_first_def cmd_neq)
next
  assume h: "Invoked starterkit_ci_deploy \<in> set (trace rn g) \<and> exit_status rn starterkit_ci_deploy \<noteq> 0"
  then have c: "build_pages_if g" "uses_ok rn ''actions/checkout@v4''"
     "uses_ok rn ''conda-incubator/setup-miniconda@v2''" "exit_status rn pip_install = 0"
     "exit_status rn starterkit_ci_build = 0" "deploy_if g" "exit_status rn starterkit_ci_deploy \<noteq> 0"
    by (simp_all add: deploy_invoked_iff)
  then have b: "build_webpage rn g = ([Started (Some ''Checkout code''), Used ''actions/checkout@v4'', Started None, Used ''conda-incubator/setup-miniconda@v2'',
            Started (Some ''Install starterkit-ci''), Invoked pip_install, Started (Some ''Build webpage''), Invoked starterkit_ci_build,
            Started (Some ''Deploy webpage''), Set_env ''TRAVIS_BRANCH'' (remove_prefix ''refs/heads/'' (ref g)),
            Set_env ''TRAVIS_REPO_SLUG'' (repository g),
            Set_env ''INPUT_GITHUB_TOKEN'' (github_token g),
            Invoked starterkit_ci_deploy], Failed)"
    by (simp add: build_webpage_unfold)
  show "job_conclusion rn g = Failed"
    by (simp add: job_conclusion_def b)
  show "from_first (Invoked starterkit_ci_deploy) (trace rn g) = [Invoked starterkit_ci_deploy]"
    by (simp add: trace_def b from_first_def cmd_neq)
qed

theorem deploy_only_on_push_to_master_witness:
  "Started (Some ''Deploy webpage'') \<in> set (trace \<lparr>uses_ok = \<lambda>a. True, exit_status = \<lambda>c. 0\<rparr> \<lparr>event_name = ''push'', repository = ''hsf-training/analysis-essentials'', ref = ''refs/heads/master'', github_token = ''t0ken''\<rparr>)
   \<and> from_first (Started (Some ''Deploy webpage'')) (trace \<lparr>uses_ok = \<lambda>a. True, exit_status = \<lambda>c. 0\<rparr> \<lparr>event_name = ''push'', repository = ''hsf-training/analysis-essentials'', ref = ''refs/heads/master'', github_token = ''t0ken''\<rparr>)
       = [Started (Some ''Deploy webpage''),
          Set_env ''TRAVIS_BRANCH'' ''master'',
          Set_env ''TRAVIS_REPO_SLUG'' ''hsf-training/analysis-essentials'',
          Set_env ''INPUT_GITHUB_TOKEN'' ''t0ken'',
          Invoked starterkit_ci_deploy]
   \<and> Set_env ''INPUT_GITHUB_TOKEN'' ''t0ken''
        \<in> set (before (Invoked starterkit_ci_deploy) (trace \<lparr>uses_ok = \<lambda>a. True, exit_status = \<lambda>c. 0\<rparr> \<lparr>event_name = ''push'', repository = ''hsf-training/analysis-essentials'', ref = ''refs/heads/master'', github_token = ''t0ken''\<rparr>))
   \<and> Set_env ''TRAVIS_REPO_SLUG'' ''hsf-training/analysis-essentials''
        \<in> set (before (Invoked starterkit_ci_deploy) (trace \<lparr>uses_ok = \<lambda>a. True, exit_status = \<lambda>c. 0\<rparr> \<lparr>event_name = ''push'', repository = ''hsf-training/analysis-essentials'', ref = ''refs/heads/master'', github_token = ''t0ken''\<rparr>))
   \<and> trace \<lparr>uses_ok = \<lambda>a. True, exit_status = \<lambda>c. 0\<rparr> \<lparr>event_name = ''pull_request'', repository = ''hsf-training/analysis-essentials'', ref = ''refs/pull/7/merge'', github_token = ''t0ken''\<rparr>
       = [Started (Some ''Checkout code''), Used ''actions/checkout@v4'',
          Started None, Used ''conda-incubator/setup-miniconda@v2'',
          Started (Some ''Install starterkit-ci''), Invoked pip_install,
          Started (Some ''Build webpage''), Invoked starterkit_ci_build]
   \<and> Started (Some ''Deploy webpage'') \<notin> set (trace \<lparr>uses_ok = \<lambda>a. True, exit_status = \<lambda>c. 0\<rparr> \<lparr>event_name = ''pull_request'', repository = ''hsf-training/analysis-essentials'', ref = ''refs/pull/7/merge'', github_token = ''t0ken''\<rparr>)
   \<and> Invoked starterkit_ci_deploy \<notin> set (trace \<lparr>uses_ok = \<lambda>a. True, exit_status = \<lambda>c. 0\<rparr> \<lparr>event_name = ''pull_request'', repository = ''hsf-training/analysis-essentials'', ref = ''refs/pull/7/merge'', github_token = ''t0ken''\<rparr>)"
proof -
  let ?rn = "\<lparr>uses_ok = \<lambda>a. True, exit_status = \<lambda>c. 0\<rparr>"
  let ?g = "\<lparr>event_name = ''push'', repository = ''hsf-training/analysis-essentials'', ref = ''refs/heads/master'', github_token = ''t0ken''\<rparr>"
  let ?pr = "\<lparr>event_name = ''pull_request'', repository = ''hsf-training/analysis-essentials'', ref = ''refs/pull/7/merge'', github_token = ''t0ken''\<rparr>"
  have d: "Started (Some ''Deploy webpage'') \<in> set (trace ?rn ?g)"
    by (simp add: deploy_started_iff build_pages_if_def deploy_if_def)
  have e: "event_name ?pr = ''pull_request''" by simp
  have t: "trace ?rn ?pr = [Started (Some ''Checkout code''), Used ''actions/checkout@v4'',
          Started None, Used ''conda-incubator/setup-miniconda@v2'',
          Started (Some ''Install starterkit-ci''), Invoked pip_install,
          Started (Some ''Build webpage''), Invoked starterkit_ci_build]"
    by (simp add: trace_def build_webpage_unfold build_pages_if_def deploy_if_def)
  have b: "remove_prefix ''refs/heads/'' (ref ?g) = ''master''"
    by (simp add: remove_prefix_def)
  note push = deploy_only_on_push_to_master [of ?rn ?g]
  note pull = deploy_only_on_push_to_master [of ?rn ?pr]
  from push d have s: "from_first (Started (Some ''Deploy webpage'')) (trace ?rn ?g)
          = [Started (Some ''Deploy webpage''),
             Set_env ''TRAVIS_BRANCH'' (remove_prefix ''refs/heads/'' (ref ?g)),
             Set_env ''TRAVIS_REPO_SLUG'' (repository ?g),
             Set_env ''INPUT_GITHUB_TOKEN'' (github_token ?g),
             Invoked starterkit_ci_deploy]
        \<and> Set_env ''INPUT_GITHUB_TOKEN'' (github_token ?g)
          \<in> set (before (Invoked starterkit_ci_deploy) (trace ?rn ?g))
        \<and> Set_env ''TRAVIS_REPO_SLUG'' (repository ?g)
          \<in> set (before (Invoked starterkit_ci_deploy) (trace ?rn ?g))"
    by blast
  from pull e have n: "Started (Some ''Deploy webpage'') \<notin> set (trace ?rn ?pr)
        \<and> Invoked starterkit_ci_deploy \<notin> set (trace ?rn ?pr)"
    by blast
  from s have s0: "from_first (Started (Some ''Deploy webpage'')) (trace ?rn ?g)
       = [Started (Some ''Deploy webpage''),
          Set_env ''TRAVIS_BRANCH'' ''master'',
          Set_env ''TRAVIS_REPO_SLUG'' ''hsf-training/analysis-essentials'',
          Set_env ''INPUT_GITHUB_TOKEN'' ''t0ken'',
          Invoked starterkit_ci_deploy]"
    unfolding b by simp
  from s have s1: "Set_env ''INPUT_GITHUB_TOKEN'' ''t0ken''
          \<in> set (before (Invoked starterkit_ci_deploy) (trace ?rn ?g))"
    and s2: "Set_env ''TRAVIS_REPO_SLUG'' ''hsf-training/analysis-essentials''
          \<in> set (before (Invoked starterkit_ci_deploy) (trace ?rn ?g))"
    by simp_all
  from n have n1: "Started (Some ''Deploy webpage'') \<notin> set (trace ?rn ?pr)"
    and n2: "Invoked starterkit_ci_deploy \<notin> set (trace ?rn ?pr)"
    by simp_all
  from d s0 s1 s2 t n1 n2 show ?thesis by (intro conjI)
qed

theorem build_deploy_once_and_fail_the_job_witness:
  "Invoked starterkit_ci_build \<in> set (trace \<lparr>uses_ok = \<lambda>a. True, exit_status = \<lambda>c. if c = starterkit_ci_build then 2 else 0\<rparr> \<lparr>event_name = ''push'', repository = ''hsf-training/analysis-essentials'', ref = ''refs/heads/master'', github_token = ''t0ken''\<rparr>)
   \<and> exit_status \<lparr>uses_ok = \<lambda>a. True, exit_status = \<lambda>c. if c = starterkit_ci_build then 2 else 0\<rparr> starterkit_ci_build = 2
   \<and> job_conclusion \<lparr>uses_ok = \<lambda>a. True, exit_status = \<lambda>c. if c = starterkit_ci_build then 2 else 0\<rparr> \<lparr>event_name = ''push'', repository = ''hsf-training/analysis-essentials'', ref = ''refs/heads/master'', github_token = ''t0ken''\<rparr> = Failed
   \<and> trace \<lparr>uses_ok = \<lambda>a. True, exit_status = \<lambda>c. if c = starterkit_ci_build then 2 else 0\<rparr> \<lparr>event_name = ''push'', repository = ''hsf-training/analysis-essentials'', ref = ''refs/heads/master'', github_token = ''t0ken''\<rparr>
       = [Started (Some ''Checkout code''), Used ''actions/checkout@v4'', Started None, Used ''conda-incubator/setup-miniconda@v2'',
          Started (Some ''Install starterkit-ci''), Invoked pip_install, Started (Some ''Build webpage''), Invoked starterkit_ci_build]
   \<and> Invoked starterkit_ci_deploy \<in> set (trace \<lparr>uses_ok = \<lambda>a. True, exit_status = \<lambda>c. if c = starterkit_ci_deploy then 1 else 0\<rparr> \<lparr>event_name = ''push'', repository = ''hsf-training/analysis-essentials'', ref = ''refs/heads/master'', github_token = ''t0ken''\<rparr>)
   \<and> exit_status \<lparr>uses_ok = \<lambda>a. True, exit_status = \<lambda>c. if c = starterkit_ci_deploy then 1 else 0\<rparr> starterkit_ci_deploy = 1
   \<and> job_conclusion \<lparr>uses_ok = \<lambda>a. True, exit_status = \<lambda>c. if c = starterkit_ci_deploy then 1 else 0\<rparr> \<lparr>event_name = ''push'', repository = ''hsf-training/analysis-essentials'', ref = ''refs/heads/master'', github_token = ''t0ken''\<rparr> = Failed
   \<and> from_first (Invoked starterkit_ci_deploy) (trace \<lparr>uses_ok = \<lambda>a. True, exit_status = \<lambda>c. if c = starterkit_ci_deploy then 1 else 0\<rparr> \<lparr>event_name = ''push'', repository = ''hsf-training/analysis-essentials'', ref = ''refs/heads/master'', github_token = ''t0ken''\<rparr>) = [Invoked starterkit_ci_deploy]"
proof -
  let ?r1 = "\<lparr>uses_ok = \<lambda>a. True, exit_status = \<lambda>c. if c = starterkit_ci_build then 2 else 0\<rparr>"
  let ?r2 = "\<lparr>uses_ok = \<lambda>a. True, exit_status = \<lambda>c. if c = starterkit_ci_deploy then 1 else 0\<rparr>"
  let ?g = "\<lparr>event_name = ''push'', repository = ''hsf-training/analysis-essentials'', ref = ''refs/heads/master'', github_token = ''t0ken''\<rparr>"
  have b: "Invoked starterkit_ci_build \<in> set (trace ?r1 ?g)"
    by (simp add: build_invoked_iff build_pages_if_def cmd_neq)
  have be: "exit_status ?r1 starterkit_ci_build = 2" by simp
  have bt: "trace ?r1 ?g = [Started (Some ''Checkout code''), Used ''actions/checkout@v4'', Started None, Used ''conda-incubator/setup-miniconda@v2'',
          Started (Some ''Install starterkit-ci''), Invoked pip_install, Started (Some ''Build webpage''), Invoked starterkit_ci_build]"
    by (simp add: trace_def build_webpage_unfold build_pages_if_def cmd_neq)
  have d: "Invoked starterkit_ci_deploy \<in> set (trace ?r2 ?g)"
    by (simp add: deploy_invoked_iff build_pages_if_def deploy_if_def cmd_neq)
  have de: "exit_status ?r2 starterkit_ci_deploy = 1" by simp
  note one = build_deploy_once_and_fail_the_job [of ?r1 ?g]
  note two = build_deploy_once_and_fail_the_job [of ?r2 ?g]
  from one b be have bf: "job_conclusion ?r1 ?g = Failed" by simp
  from two d de have df: "job_conclusion ?r2 ?g = Failed"
    and dl: "from_first (Invoked starterkit_ci_deploy) (trace ?r2 ?g) = [Invoked starterkit_ci_deploy]"
    by simp_all
  from b be bf bt d de df dl show ?thesis by (intro conjI)
qed

section \<open>The momentum columns\<close>

lemma mc_df_columns:
  assumes "mc_df_add_variables mc_df = Inr mc_df'"
  shows "\<exists>xs ys zs. mc_df ''mum_PX'' = Some xs \<and> mc_df ''mum_PY'' = Some ys \<and> mc_df ''mum_PZ'' = Some zs
           \<and> mc_df' ''mup_P'' = Some (momentum_column xs ys zs)
           \<and> mc_df' ''mum_P'' = Some (momentum_column xs ys zs)"
  using assms
  by (auto simp add: mc_df_add_variables_def and_then_def df_eval_def momentum_column_def
      split: sum.splits option.splits)

lemma data_df_columns:
  assumes "data_df_add_variables data_df = Inr data_df'"
  shows "\<exists>xs ys zs xs' ys' zs'.
           data_df ''mup_PX'' = Some xs \<and> data_df ''mup_PY'' = Some ys \<and> data_df ''mup_PZ'' = Some zs
           \<and> data_df ''mum_PX'' = Some xs' \<and> data_df ''mum_PY'' = Some ys' \<and> data_df ''mum_PZ'' = Some zs'
           \<and> data_df' ''mup_P'' = Some (momentum_column xs ys zs)
           \<and> data_df' ''mum_P'' = Some (momentum_column xs' ys' zs')"
  using assms
  by (auto simp add: data_df_add_variables_def and_then_def df_eval_def momentum_column_def
      split: sum.splits option.splits)

lemma mc_df_returns:
  assumes "{''Jpsi_PZ'', ''Jpsi_P'', ''mum_PX'', ''mum_PY'', ''mum_PZ''} \<subseteq> dom mc_df"
  shows "\<exists>mc_df'. mc_df_add_variables mc_df = Inr mc_df'"
  using assms
  by (auto simp add: mc_df_add_variables_def and_then_def df_eval_def)

lemma example_mc:
  "\<exists>df'. mc_df_add_variables example_df = Inr df' \<and> df' ''mup_P'' = Some [Some 1] \<and> df' ''mum_P'' = Some [Some 1]"
  by (simp add: mc_df_add_variables_def and_then_def df_eval_def example_df_def)

lemma example_data:
  "\<exists>df'. data_df_add_variables example_df = Inr df' \<and> df' ''mup_P'' = Some [Some 2] \<and> df' ''mum_P'' = Some [Some 1]"
  by (simp add: data_df_add_variables_def and_then_def df_eval_def example_df_def)

text \<open>
  Claim C10.  The cell for \<^verbatim>\<open>mc_df\<close> needs only the columns of the \<^verbatim>\<open>Jpsi\<close> and of
  the \<^verbatim>\<open>mum\<close> momentum to run.  In \<^verbatim>\<open>mc_df\<close> the column \<^verbatim>\<open>mup_P\<close> is computed from \<^verbatim>\<open>mum_PX\<close>,
  \<^verbatim>\<open>mum_PY\<close>, \<^verbatim>\<open>mum_PZ\<close>, so the columns \<^verbatim>\<open>mup_P\<close> and \<^verbatim>\<open>mum_P\<close> are equal, row by
  row.  In \<^verbatim>\<open>data_df\<close> the column \<^verbatim>\<open>mup_P\<close> is computed from \<^verbatim>\<open>mup_PX\<close>, \<^verbatim>\<open>mup_PY\<close>,
  \<^verbatim>\<open>mup_PZ\<close>, and there are frames on which the two columns differ.
\<close>

theorem mc_df_mup_P_equals_mum_P:
  "({''Jpsi_PZ'', ''Jpsi_P'', ''mum_PX'', ''mum_PY'', ''mum_PZ''} \<subseteq> dom mc_df \<longrightarrow>
      (\<exists>df'. mc_df_add_variables mc_df = Inr df'))
   \<and> (mc_df_add_variables mc_df = Inr mc_df' \<longrightarrow>
      (\<exists>xs ys zs. mc_df ''mum_PX'' = Some xs \<and> mc_df ''mum_PY'' = Some ys \<and> mc_df ''mum_PZ'' = Some zs
         \<and> mc_df' ''mup_P'' = Some (momentum_column xs ys zs)
         \<and> mc_df' ''mum_P'' = mc_df' ''mup_P''))
   \<and> (data_df_add_variables data_df = Inr data_df' \<longrightarrow>
      (\<exists>xs ys zs xs' ys' zs'.
           data_df ''mup_PX'' = Some xs \<and> data_df ''mup_PY'' = Some ys \<and> data_df ''mup_PZ'' = Some zs
           \<and> data_df ''mum_PX'' = Some xs' \<and> data_df ''mum_PY'' = Some ys' \<and> data_df ''mum_PZ'' = Some zs'
           \<and> data_df' ''mup_P'' = Some (momentum_column xs ys zs)
           \<and> data_df' ''mum_P'' = Some (momentum_column xs' ys' zs')))
   \<and> (\<exists>df df'. data_df_add_variables df = Inr df' \<and> df' ''mup_P'' \<noteq> df' ''mum_P'')"
proof (intro conjI impI)
  assume "{''Jpsi_PZ'', ''Jpsi_P'', ''mum_PX'', ''mum_PY'', ''mum_PZ''} \<subseteq> dom mc_df"
  then show "\<exists>df'. mc_df_add_variables mc_df = Inr df'"
    by (rule mc_df_returns)
next
  assume "mc_df_add_variables mc_df = Inr mc_df'"
  from mc_df_columns [OF this] obtain xs ys zs where
    "mc_df ''mum_PX'' = Some xs" "mc_df ''mum_PY'' = Some ys" "mc_df ''mum_PZ'' = Some zs"
    "mc_df' ''mup_P'' = Some (momentum_column xs ys zs)"
    "mc_df' ''mum_P'' = Some (momentum_column xs ys zs)"
    by blast
  then show "\<exists>xs ys zs. mc_df ''mum_PX'' = Some xs \<and> mc_df ''mum_PY'' = Some ys \<and> mc_df ''mum_PZ'' = Some zs
         \<and> mc_df' ''mup_P'' = Some (momentum_column xs ys zs)
         \<and> mc_df' ''mum_P'' = mc_df' ''mup_P''"
    by simp
next
  assume "data_df_add_variables data_df = Inr data_df'"
  then show "\<exists>xs ys zs xs' ys' zs'.
           data_df ''mup_PX'' = Some xs \<and> data_df ''mup_PY'' = Some ys \<and> data_df ''mup_PZ'' = Some zs
           \<and> data_df ''mum_PX'' = Some xs' \<and> data_df ''mum_PY'' = Some ys' \<and> data_df ''mum_PZ'' = Some zs'
           \<and> data_df' ''mup_P'' = Some (momentum_column xs ys zs)
           \<and> data_df' ''mum_P'' = Some (momentum_column xs' ys' zs')"
    by (rule data_df_columns)
next
  from example_data obtain df' where
    "data_df_add_variables example_df = Inr df'" "df' ''mup_P'' = Some [Some 2]" "df' ''mum_P'' = Some [Some 1]"
    by blast
  then have "data_df_add_variables example_df = Inr df' \<and> df' ''mup_P'' \<noteq> df' ''mum_P''"
    by simp
  then show "\<exists>df df'. data_df_add_variables df = Inr df' \<and> df' ''mup_P'' \<noteq> df' ''mum_P''"
    by blast
qed

theorem mc_df_mup_P_equals_mum_P_witness:
  "{''Jpsi_PZ'', ''Jpsi_P'', ''mum_PX'', ''mum_PY'', ''mum_PZ''} \<subseteq> dom example_df
   \<and> (\<exists>mc_df'. mc_df_add_variables example_df = Inr mc_df'
       \<and> mc_df' ''mup_P'' = Some [Some 1] \<and> mc_df' ''mum_P'' = mc_df' ''mup_P'')
   \<and> (\<exists>data_df'. data_df_add_variables example_df = Inr data_df'
       \<and> data_df' ''mup_P'' = Some (momentum_column [Some 2] [Some 0] [Some 0])
       \<and> data_df' ''mup_P'' = Some [Some 2] \<and> data_df' ''mum_P'' = Some [Some 1])"
proof -
  from example_mc obtain m where
    m: "mc_df_add_variables example_df = Inr m" "m ''mup_P'' = Some [Some 1]"
    by blast
  from example_data obtain d where
    d: "data_df_add_variables example_df = Inr d" "d ''mup_P'' = Some [Some 2]" "d ''mum_P'' = Some [Some 1]"
    by blast
  note inst = mc_df_mup_P_equals_mum_P [of example_df m example_df d]
  from inst m(1) have "m ''mum_P'' = m ''mup_P''" by blast
  with m have a: "\<exists>mc_df'. mc_df_add_variables example_df = Inr mc_df'
       \<and> mc_df' ''mup_P'' = Some [Some 1] \<and> mc_df' ''mum_P'' = mc_df' ''mup_P''"
    by blast
  have x: "example_df ''mup_PX'' = Some [Some 2]" "example_df ''mup_PY'' = Some [Some 0]"
    "example_df ''mup_PZ'' = Some [Some 0]"
    by (simp_all add: example_df_def)
  from inst d(1) x have "d ''mup_P'' = Some (momentum_column [Some 2] [Some 0] [Some 0])"
    by auto
  with d have b: "\<exists>data_df'. data_df_add_variables example_df = Inr data_df'
       \<and> data_df' ''mup_P'' = Some (momentum_column [Some 2] [Some 0] [Some 0])
       \<and> data_df' ''mup_P'' = Some [Some 2] \<and> data_df' ''mum_P'' = Some [Some 1]"
    by blast
  have c: "{''Jpsi_PZ'', ''Jpsi_P'', ''mum_PX'', ''mum_PY'', ''mum_PZ''} \<subseteq> dom example_df"
    by (simp add: example_df_def)
  from c a b show ?thesis by (intro conjI)
qed

end
